theory Spec2Isabelle
  imports Complex_Main "HOL-Library.AList"
begin

section \<open>Subtitle timing\<close>

text \<open>
  JavaScript numbers are modelled as exact rationals: the subtitle code only adds,
  divides by a sentence count and takes minima, and the properties below are those of
  the algorithm, not of IEEE rounding.
\<close>

subsection \<open>String helpers of the JavaScript runtime\<close>

text \<open>The separator class of the regular expression \<^verbatim>\<open>/[.!?]+/\<close>.\<close>

definition is_delim :: "char \<Rightarrow> bool" where
  "is_delim c = (c = CHR ''.'' \<or> c = CHR ''!'' \<or> c = CHR ''?'')"

text \<open>
  \<^verbatim>\<open>text.split(/[.!?]+/)\<close>: the pieces between maximal runs of separators. A leading or
  trailing run leaves an empty piece, and the empty string splits into one empty piece.
\<close>

fun split_re :: "string \<Rightarrow> string list" where
  "split_re [] = [[]]"
| "split_re (c # cs) =
     (if is_delim c then
        (case cs of
           d # _ \<Rightarrow> if is_delim d then split_re cs else [] # split_re cs
         | [] \<Rightarrow> [] # split_re cs)
      else
        (case split_re cs of
           p # ps \<Rightarrow> (c # p) # ps
         | [] \<Rightarrow> [[c]]))"

text \<open>White space removed by \<^verbatim>\<open>String.prototype.trim\<close> (the ASCII part of it).\<close>

definition is_space :: "char \<Rightarrow> bool" where
  "is_space c = (c = CHR '' '' \<or> c = CHR 0x09 \<or> c = CHR 0x0A \<or> c = CHR 0x0B
                 \<or> c = CHR 0x0C \<or> c = CHR 0x0D)"

definition trim :: "string \<Rightarrow> string" where
  "trim s = rev (dropWhile is_space (rev (dropWhile is_space s)))"

subsection \<open>generateSubtitles (command-line pipeline)\<close>

record subtitle =
  idx :: nat
  startTime :: rat
  endTime :: rat
  caption :: string

text \<open>
  \<^verbatim>\<open>const sentences = text.split(/[.!?]+/).filter((s) => s.trim().length > 0);\<close>
\<close>

definition sentences :: "string \<Rightarrow> string list" where
  "sentences text = filter (\<lambda>s. length (trim s) > 0) (split_re text)"

text \<open>
  \<^verbatim>\<open>const timePerSentence = duration / sentences.length;\<close>
  With no sentence the quotient is not a finite number (Infinity or NaN): \<open>None\<close>.
\<close>

definition timePerSentence :: "rat \<Rightarrow> nat \<Rightarrow> rat option" where
  "timePerSentence duration n = (if n = 0 then None else Some (duration / of_nat n))"

text \<open>
  The \<^verbatim>\<open>for\<close> loop over the sentences, from index \<open>i\<close> and running start time
  \<open>start\<close>. Each executed iteration appends one entry to the SRT text. A blank sentence
  is skipped by \<^verbatim>\<open>continue\<close>. Where the time per sentence is not finite,
  \<^verbatim>\<open>Math.min(startTime + timePerSentence, duration)\<close> is taken to be the duration.
\<close>

fun subtitle_loop :: "rat option \<Rightarrow> rat \<Rightarrow> nat \<Rightarrow> rat \<Rightarrow> string list \<Rightarrow> subtitle list" where
  "subtitle_loop tps duration i start [] = []"
| "subtitle_loop tps duration i start (s # ss) =
     (let sentence = trim s in
      if sentence = [] then subtitle_loop tps duration (i + 1) start ss
      else
        let end = (case tps of Some t \<Rightarrow> min (start + t) duration | None \<Rightarrow> duration) in
        \<lparr>idx = i + 1, startTime = start, endTime = end, caption = sentence\<rparr>
          # subtitle_loop tps duration (i + 1) end ss)"

text \<open>
  \<^verbatim>\<open>generateSubtitles\<close> writes the entries, rendered as SRT text, to the output path; the
  model returns the entries, and an empty list stands for an empty file.
\<close>

definition generateSubtitles :: "string \<Rightarrow> rat \<Rightarrow> subtitle list" where
  "generateSubtitles text duration =
     (let ss = sentences text;
          tps = timePerSentence duration (length ss)
      in subtitle_loop tps duration 0 0 ss)"

subsection \<open>generateSimpleSRT (worker pipeline)\<close>

text \<open>\<^verbatim>\<open>text.split(' ')\<close>: every single space separates; the empty string gives one empty word.\<close>

fun split_space :: "string \<Rightarrow> string list" where
  "split_space [] = [[]]"
| "split_space (c # cs) =
     (if c = CHR '' '' then [] # split_space cs
      else
        (case split_space cs of
           p # ps \<Rightarrow> (c # p) # ps
         | [] \<Rightarrow> [[c]]))"

text \<open>\<^verbatim>\<open>words.join(' ')\<close>\<close>

fun join_space :: "string list \<Rightarrow> string" where
  "join_space [] = []"
| "join_space [w] = w"
| "join_space (w # ws) = w @ '' '' @ join_space ws"

definition wordsPerSecond :: rat where
  "wordsPerSecond = 5 / 2"

text \<open>\<^verbatim>\<open>const wordsPerChunk = Math.ceil(wordsPerSecond * 3);\<close>\<close>

definition wordsPerChunk :: nat where
  "wordsPerChunk = nat \<lceil>wordsPerSecond * 3\<rceil>"

text \<open>
  \<^verbatim>\<open>for (let i = 0; i < words.length; i += wordsPerChunk)
    chunks.push(words.slice(i, i + wordsPerChunk).join(' '));\<close>
\<close>

function chunk_loop :: "string list \<Rightarrow> nat \<Rightarrow> string list" where
  "chunk_loop words i =
     (if i < length words
      then join_space (take wordsPerChunk (drop i words)) # chunk_loop words (i + wordsPerChunk)
      else [])"
  by pat_completeness auto
termination
proof -
  have "\<lceil>(5 / 2 :: rat) * 3\<rceil> = 8"
    by (rule ceiling_unique) simp_all
  then have "wordsPerChunk = 8"
    by (simp add: wordsPerChunk_def wordsPerSecond_def)
  then show ?thesis
    by (relation "measure (\<lambda>(words, i). length words - i)") auto
qed

declare chunk_loop.simps [simp del]

text \<open>
  \<^verbatim>\<open>chunks.forEach((chunk, index) => ...)\<close>: chunk \<open>index\<close> is shown from \<open>index * 3\<close>
  to \<open>Math.min((index + 1) * 3, duration)\<close>.
\<close>

fun srt_entries :: "rat \<Rightarrow> nat \<Rightarrow> string list \<Rightarrow> subtitle list" where
  "srt_entries duration index [] = []"
| "srt_entries duration index (chunk # chunks) =
     \<lparr>idx = index + 1,
      startTime = of_nat index * 3,
      endTime = min (of_nat (index + 1) * 3) duration,
      caption = chunk\<rparr> # srt_entries duration (index + 1) chunks"

text \<open>
  The clip duration is not an argument: the function derives its own duration,
  \<^verbatim>\<open>Math.max(30, words.length / wordsPerSecond)\<close>.
\<close>

definition generateSimpleSRT :: "string \<Rightarrow> subtitle list" where
  "generateSimpleSRT text =
     (let words = split_space text;
          duration = max 30 (of_nat (length words) / wordsPerSecond);
          chunks = chunk_loop words 0
      in srt_entries duration 0 chunks)"

section \<open>JavaScript values, errors and the environment\<close>

text \<open>\<^verbatim>\<open>String(n)\<close> for a non-negative integer, as template literals render it.\<close>

definition digit_char :: "nat \<Rightarrow> char" where
  "digit_char n = ''0123456789'' ! n"

function showNat :: "nat \<Rightarrow> string" where
  "showNat n = (if n < 10 then [digit_char n] else showNat (n div 10) @ [digit_char (n mod 10)])"
  by pat_completeness auto
termination
  by (relation "measure id") auto

declare showNat.simps [simp del]

text \<open>A thrown value: an \<^verbatim>\<open>Error\<close> with its message, or one of the runtime's own errors.\<close>

datatype error = Error string | TypeError | SyntaxError | ZodError

datatype jsval =
    JUndefined
  | JNull
  | JBool bool
  | JNum rat
  | JStr string
  | JArr "jsval list"
  | JObj "(string \<times> jsval) list"

text \<open>
  Reading a named data property, \<^verbatim>\<open>v.k\<close>: a \<^verbatim>\<open>TypeError\<close> on
  \<^verbatim>\<open>undefined\<close> and \<^verbatim>\<open>null\<close>, \<^verbatim>\<open>undefined\<close> where the value has no such property.
\<close>

fun get_prop :: "jsval \<Rightarrow> string \<Rightarrow> error + jsval" where
  "get_prop JUndefined k = Inl TypeError"
| "get_prop JNull k = Inl TypeError"
| "get_prop (JObj kvs) k = Inr (case map_of kvs k of Some v \<Rightarrow> v | None \<Rightarrow> JUndefined)"
| "get_prop v k = Inr JUndefined"

text \<open>Reading an index, \<^verbatim>\<open>v[i]\<close>.\<close>

fun get_index :: "jsval \<Rightarrow> nat \<Rightarrow> error + jsval" where
  "get_index JUndefined i = Inl TypeError"
| "get_index JNull i = Inl TypeError"
| "get_index (JArr xs) i = Inr (if i < length xs then xs ! i else JUndefined)"
| "get_index (JStr s) i = Inr (if i < length s then JStr [s ! i] else JUndefined)"
| "get_index (JObj kvs) i =
     Inr (case map_of kvs (showNat i) of Some v \<Rightarrow> v | None \<Rightarrow> JUndefined)"
| "get_index v i = Inr JUndefined"

text \<open>Sequencing of steps that may throw.\<close>

definition and_then :: "error + 'a \<Rightarrow> ('a \<Rightarrow> error + 'b) \<Rightarrow> error + 'b" where
  "and_then r f = (case r of Inl e \<Rightarrow> Inl e | Inr v \<Rightarrow> f v)"

text \<open>Truthiness of an optional string, and \<^verbatim>\<open>a || b\<close> on it.\<close>

definition truthy :: "string option \<Rightarrow> bool" where
  "truthy v = (case v of None \<Rightarrow> False | Some s \<Rightarrow> s \<noteq> [])"

definition or_else :: "string option \<Rightarrow> string \<Rightarrow> string" where
  "or_else v d = (case v of None \<Rightarrow> d | Some s \<Rightarrow> if s = [] then d else s)"

text \<open>What \<^verbatim>\<open>fetch\<close> gives: a rejection, or a response with its body read three ways.\<close>

record response =
  ok :: bool
  status :: nat
  statusText :: string
  body_text :: string
  body_json :: "jsval option"
  body_bytes :: "nat list"

datatype fetch_result = Rejected string | Responded response

datatype Lang = fr | en

datatype NarrationStyle = zen | adventure

record NarrationRequest =
  lang :: Lang
  style :: NarrationStyle
  durationSec :: rat
  req_context :: "string option"

text \<open>
  Everything outside the program that the narration and voice modules read: the process
  environment, the remote services (each a function of what the request sends),
  \<^verbatim>\<open>JSON.parse\<close>, the \<^verbatim>\<open>path\<close> module, and whether the file system refuses a
  directory or a file.
\<close>

record env =
  process_env :: "string \<Rightarrow> string option"
  JSON_parse :: "jsval \<Rightarrow> jsval option"
  openai_chat :: "string \<Rightarrow> NarrationRequest \<Rightarrow> fetch_result"
  gemini_generate :: "string \<Rightarrow> NarrationRequest \<Rightarrow> fetch_result"
  elevenlabs_tts :: "string \<Rightarrow> string \<Rightarrow> string \<Rightarrow> fetch_result"
  openai_speech :: "string \<Rightarrow> string \<Rightarrow> fetch_result"
  path_resolve :: "string \<Rightarrow> string"
  path_dirname :: "string \<Rightarrow> string"
  mkdir_fails :: "string \<Rightarrow> bool"
  writeFile_fails :: "string \<Rightarrow> bool"

section \<open>Narration generator (packages/ai/text)\<close>

text \<open>
  \<^verbatim>\<open>ResultSchema\<close>: an object whose \<^verbatim>\<open>title\<close>, \<^verbatim>\<open>narration\<close> and
  \<^verbatim>\<open>caption\<close> are strings and whose \<^verbatim>\<open>hashtags\<close> is an array of 6 to 20 strings.
\<close>

definition z_string :: "jsval \<Rightarrow> bool" where
  "z_string v = (case v of JStr s \<Rightarrow> True | _ \<Rightarrow> False)"

definition z_hashtags :: "jsval \<Rightarrow> bool" where
  "z_hashtags v =
     (case v of
        JArr xs \<Rightarrow> list_all z_string xs \<and> 6 \<le> length xs \<and> length xs \<le> 20
      | _ \<Rightarrow> False)"

definition own :: "(string \<times> jsval) list \<Rightarrow> string \<Rightarrow> jsval" where
  "own kvs k = (case map_of kvs k of Some v \<Rightarrow> v | None \<Rightarrow> JUndefined)"

text \<open>\<^verbatim>\<open>ResultSchema.parse\<close> throws on a mismatch and returns the four declared keys.\<close>

definition ResultSchema_parse :: "jsval \<Rightarrow> error + jsval" where
  "ResultSchema_parse v =
     (case v of
        JObj kvs \<Rightarrow>
          if z_string (own kvs ''title'') \<and> z_string (own kvs ''narration'')
             \<and> z_string (own kvs ''caption'') \<and> z_hashtags (own kvs ''hashtags'')
          then Inr (JObj [(''title'', own kvs ''title''),
                          (''narration'', own kvs ''narration''),
                          (''caption'', own kvs ''caption''),
                          (''hashtags'', own kvs ''hashtags'')])
          else Inl ZodError
      | _ \<Rightarrow> Inl ZodError)"

definition stub_out :: jsval where
  "stub_out = JObj
     [(''title'', JStr ''Breath with the Ocean''),
      (''narration'', JStr (''Dive deep into the tranquil waters where time slows and the world above fades away. ''
         @ ''Feel the gentle rhythm of your breath as you explore the underwater realm, surrounded by vibrant coral and curious marine life. ''
         @ ''Each moment beneath the surface is a meditation, a chance to connect with the ancient rhythms of the sea. ''
         @ ''Let the weightlessness carry you as you discover the hidden beauty that lies beneath the waves.'')),
      (''caption'', JStr ''Experience the serenity of underwater exploration. Dive into a world of peace and wonder.''),
      (''hashtags'', JArr [JStr ''#ocean'', JStr ''#diving'', JStr ''#underwater'', JStr ''#meditation'',
                           JStr ''#nature'', JStr ''#peace'', JStr ''#marine'', JStr ''#serenity'',
                           JStr ''#breath'', JStr ''#calm''])]"

definition generateStub :: "NarrationRequest \<Rightarrow> error + jsval" where
  "generateStub req = ResultSchema_parse stub_out"

text \<open>
  \<^verbatim>\<open>generateWithOpenAI\<close>. The prompts are a function of the request, so the service is
  given the key and the request. The inner \<^verbatim>\<open>try\<close> covers \<^verbatim>\<open>JSON.parse\<close> and the
  schema check only; everything before it throws to the caller.
\<close>

definition generateWithOpenAI :: "'a env_scheme \<Rightarrow> NarrationRequest \<Rightarrow> error + jsval" where
  "generateWithOpenAI e req =
     (if \<not> truthy (process_env e ''OPENAI_API_KEY'') then Inl (Error ''OPENAI_API_KEY not found'')
      else
        case openai_chat e (the (process_env e ''OPENAI_API_KEY'')) req of
          Rejected m \<Rightarrow> Inl (Error m)
        | Responded r \<Rightarrow>
            if \<not> ok r
            then Inl (Error (''OpenAI API error: '' @ showNat (status r) @ '' - '' @ body_text r))
            else
              case body_json r of
                None \<Rightarrow> Inl SyntaxError
              | Some data \<Rightarrow>
                  and_then (get_prop data ''choices'') (\<lambda>choices.
                  and_then (get_index choices 0) (\<lambda>choice.
                  and_then (get_prop choice ''message'') (\<lambda>message.
                  and_then (get_prop message ''content'') (\<lambda>content.
                    case JSON_parse e content of
                      None \<Rightarrow> generateStub req
                    | Some parsed \<Rightarrow>
                        (case ResultSchema_parse parsed of
                           Inr v \<Rightarrow> Inr v
                         | Inl err \<Rightarrow> generateStub req))))))"

definition generateWithGemini :: "'a env_scheme \<Rightarrow> NarrationRequest \<Rightarrow> error + jsval" where
  "generateWithGemini e req =
     (if \<not> truthy (process_env e ''GEMINI_API_KEY'') then Inl (Error ''GEMINI_API_KEY not found'')
      else
        case gemini_generate e (the (process_env e ''GEMINI_API_KEY'')) req of
          Rejected m \<Rightarrow> Inl (Error m)
        | Responded r \<Rightarrow>
            if \<not> ok r
            then Inl (Error (''Gemini API error: '' @ showNat (status r)))
            else
              case body_json r of
                None \<Rightarrow> Inl SyntaxError
              | Some data \<Rightarrow>
                  and_then (get_prop data ''candidates'') (\<lambda>candidates.
                  and_then (get_index candidates 0) (\<lambda>candidate.
                  and_then (get_prop candidate ''content'') (\<lambda>content.
                  and_then (get_prop content ''parts'') (\<lambda>parts.
                  and_then (get_index parts 0) (\<lambda>part.
                  and_then (get_prop part ''text'') (\<lambda>txt.
                    case JSON_parse e txt of
                      None \<Rightarrow> generateStub req
                    | Some parsed \<Rightarrow>
                        (case ResultSchema_parse parsed of
                           Inr v \<Rightarrow> Inr v
                         | Inl err \<Rightarrow> generateStub req))))))))"

text \<open>
  \<^verbatim>\<open>generateNarration\<close>: the provider named by \<^verbatim>\<open>AI_PROVIDER\<close> (default
  \<^verbatim>\<open>"openai"\<close>), and the stub when that provider throws.
\<close>

definition generateNarration :: "'a env_scheme \<Rightarrow> NarrationRequest \<Rightarrow> error + jsval" where
  "generateNarration e req =
     (let provider = or_else (process_env e ''AI_PROVIDER'') ''openai'' in
      case (if provider = ''openai'' then generateWithOpenAI e req
            else if provider = ''gemini'' then generateWithGemini e req
            else generateStub req) of
        Inr v \<Rightarrow> Inr v
      | Inl err \<Rightarrow> generateStub req)"

section \<open>Voice synthesizer (services/tts)\<close>

record VoiceInput =
  input_text :: string
  voiceId :: "string option"
  outPath :: string
  provider :: "string option"

text \<open>
  Files on disk, by content: the placeholder tone (its number of samples), bytes received
  from a provider, a subtitle track, or JSON text.
\<close>

datatype file_content = BeepWav nat | Bytes "nat list" | SrtText "subtitle list" | JsonText jsval

type_synonym fsys = "(string \<times> file_content) list"

text \<open>\<^verbatim>\<open>fs.writeFile\<close> replaces the file at the path or creates it, unless the system refuses.\<close>

definition writeFile :: "'a env_scheme \<Rightarrow> string \<Rightarrow> file_content \<Rightarrow> fsys \<Rightarrow> error + fsys" where
  "writeFile e p f fs =
     (if writeFile_fails e p then Inl (Error (''EACCES: '' @ p)) else Inr (AList.update p f fs))"

definition synthesizeWithElevenLabs ::
    "'a env_scheme \<Rightarrow> VoiceInput \<Rightarrow> string \<Rightarrow> fsys \<Rightarrow> (error + string) \<times> fsys" where
  "synthesizeWithElevenLabs e input out fs =
     (if \<not> truthy (process_env e ''ELEVENLABS_API_KEY'')
      then (Inl (Error ''ELEVENLABS_API_KEY not found''), fs)
      else
        let voice = or_else (voiceId input) ''21m00Tcm4TlvDq8ikWAM'' in
        case elevenlabs_tts e (the (process_env e ''ELEVENLABS_API_KEY'')) voice (input_text input) of
          Rejected m \<Rightarrow> (Inl (Error m), fs)
        | Responded r \<Rightarrow>
            if \<not> ok r then (Inl (Error (''ElevenLabs API error: '' @ showNat (status r))), fs)
            else
              (case writeFile e out (Bytes (body_bytes r)) fs of
                 Inl err \<Rightarrow> (Inl err, fs)
               | Inr fs' \<Rightarrow> (Inr out, fs')))"

definition synthesizeWithOpenAI ::
    "'a env_scheme \<Rightarrow> VoiceInput \<Rightarrow> string \<Rightarrow> fsys \<Rightarrow> (error + string) \<times> fsys" where
  "synthesizeWithOpenAI e input out fs =
     (if \<not> truthy (process_env e ''OPENAI_API_KEY'')
      then (Inl (Error ''OPENAI_API_KEY not found''), fs)
      else
        case openai_speech e (the (process_env e ''OPENAI_API_KEY'')) (input_text input) of
          Rejected m \<Rightarrow> (Inl (Error m), fs)
        | Responded r \<Rightarrow>
            if \<not> ok r then (Inl (Error (''OpenAI API error: '' @ showNat (status r))), fs)
            else
              (case writeFile e out (Bytes (body_bytes r)) fs of
                 Inl err \<Rightarrow> (Inl err, fs)
               | Inr fs' \<Rightarrow> (Inr out, fs')))"

text \<open>
  \<^verbatim>\<open>synthesizeBeep\<close>: a tone of \<^verbatim>\<open>Math.max(1, text.length / 10)\<close> seconds at
  44100 samples per second. The sample values are not modelled.
\<close>

definition synthesizeBeep ::
    "'a env_scheme \<Rightarrow> VoiceInput \<Rightarrow> string \<Rightarrow> fsys \<Rightarrow> (error + string) \<times> fsys" where
  "synthesizeBeep e input out fs =
     (let duration = max 1 (of_nat (length (input_text input)) / 10 :: rat);
          sampleRate = 44100;
          samples = nat \<lfloor>sampleRate * duration\<rfloor>
      in case writeFile e out (BeepWav samples) fs of
           Inl err \<Rightarrow> (Inl err, fs)
         | Inr fs' \<Rightarrow> (Inr out, fs'))"

text \<open>
  \<^verbatim>\<open>synthesizeVoice\<close>. The output directory is created before the \<^verbatim>\<open>try\<close>; the
  \<^verbatim>\<open>catch\<close> runs the tone, which may itself throw.
\<close>

definition synthesizeVoice ::
    "'a env_scheme \<Rightarrow> VoiceInput \<Rightarrow> fsys \<Rightarrow> (error + string) \<times> fsys" where
  "synthesizeVoice e input fs =
     (let prov = or_else (provider input) (or_else (process_env e ''TTS_PROVIDER'') ''beep'');
          out = path_resolve e (outPath input)
      in if mkdir_fails e (path_dirname e out) then (Inl (Error (''EACCES: '' @ path_dirname e out)), fs)
         else
           case (if prov = ''elevenlabs'' then synthesizeWithElevenLabs e input out fs
                 else if prov = ''openai'' then synthesizeWithOpenAI e input out fs
                 else synthesizeBeep e input out fs) of
             (Inr p, fs') \<Rightarrow> (Inr p, fs')
           | (Inl err, fs') \<Rightarrow> synthesizeBeep e input out fs')"

section \<open>Worker: the clip processor (apps/worker/processors/clipProcessor)\<close>

text \<open>
  The job as the processor sees it. \<^verbatim>\<open>job.updateProgress\<close> stores the value it is given;
  the trace keeps every reported value in order, and every call made to a stage's external
  collaborator.
\<close>

datatype stage =
  Download | Ingest | Narrate | Synthesize | Subtitle | Compose | CreateFolder | Upload

datatype event = Progress nat | Call stage

record world =
  progress :: nat
  trace :: "event list"
  files :: fsys

definition updateProgress :: "nat \<Rightarrow> world \<Rightarrow> world" where
  "updateProgress n w = w\<lparr>progress := n, trace := trace w @ [Progress n]\<rparr>"

definition call :: "stage \<Rightarrow> world \<Rightarrow> world" where
  "call s w = w\<lparr>trace := trace w @ [Call s]\<rparr>"

record drive_file =
  name :: string

record job_data =
  driveFile :: "drive_file option"
  fileId :: string

text \<open>
  What the worker adds to the environment: the samples directory
  (\<^verbatim>\<open>path.join(process.cwd(), '../../samples')\<close>), the dashboard's Drive endpoint, the two
  Python programs (exit code, standard output, standard error), \<^verbatim>\<open>path.basename\<close> and
  the current date.
\<close>

record worker_env = env +
  samples_dir :: string
  drive_download :: "string \<Rightarrow> string \<Rightarrow> fetch_result"
  ingest_py :: "string \<Rightarrow> nat \<times> string \<times> string"
  auto_edit_py :: "string \<Rightarrow> string \<Rightarrow> string \<Rightarrow> string \<Rightarrow> nat"
  drive_create_folder :: "string \<Rightarrow> fetch_result"
  drive_upload :: "string \<Rightarrow> string \<Rightarrow> jsval \<Rightarrow> fetch_result"
  path_basename :: "string \<Rightarrow> string"
  today :: string

definition js_truthy :: "jsval \<Rightarrow> bool" where
  "js_truthy v =
     (case v of
        JUndefined \<Rightarrow> False
      | JNull \<Rightarrow> False
      | JBool b \<Rightarrow> b
      | JNum x \<Rightarrow> x \<noteq> 0
      | JStr s \<Rightarrow> s \<noteq> []
      | _ \<Rightarrow> True)"

definition downloadFromDrive ::
    "'a worker_env_scheme \<Rightarrow> string \<Rightarrow> string \<Rightarrow> world \<Rightarrow> (error + jsval) \<times> world" where
  "downloadFromDrive e fid clipId w =
     (let localPath = samples_dir e @ ''/raw/'' @ clipId @ ''_drive.mp4'';
          w = call Download w
      in case drive_download e fid localPath of
           Rejected m \<Rightarrow> (Inl (Error m), w)
         | Responded r \<Rightarrow>
             if \<not> ok r then (Inl (Error (''Failed to download from Drive: '' @ statusText r)), w)
             else
               (case body_json r of
                  None \<Rightarrow> (Inl SyntaxError, w)
                | Some result \<Rightarrow> (get_prop result ''localPath'', w)))"

text \<open>
  \<^verbatim>\<open>ingestVideo\<close>. A path that is not a string makes \<^verbatim>\<open>spawn\<close> throw. Exit code 0
  resolves with \<^verbatim>\<open>result.clips || []\<close>, or with two made-up clip names when the output
  is not the expected JSON; any other exit code rejects.
\<close>

definition ingestVideo ::
    "'a worker_env_scheme \<Rightarrow> jsval \<Rightarrow> string \<Rightarrow> world \<Rightarrow> (error + jsval) \<times> world" where
  "ingestVideo e videoPath clipId w =
     (let w = call Ingest w in
      case videoPath of
        JStr p \<Rightarrow>
          (case ingest_py e p of
             (code, stdout, stderr) \<Rightarrow>
               if code = 0 then
                 (case and_then (case JSON_parse e (JStr (trim stdout)) of
                                   None \<Rightarrow> Inl SyntaxError
                                 | Some result \<Rightarrow> Inr result)
                                (\<lambda>result. get_prop result ''clips'') of
                    Inr clips \<Rightarrow> (Inr (if js_truthy clips then clips else JArr []), w)
                  | Inl err \<Rightarrow>
                      (Inr (JArr [JStr (clipId @ ''_clip1.mp4''), JStr (clipId @ ''_clip2.mp4'')]), w))
               else (Inl (Error (''Ingest failed with code '' @ showNat code @ '': '' @ stderr)), w))
      | _ \<Rightarrow> (Inl TypeError, w))"

record narration_info =
  clipPath :: jsval
  narration :: jsval
  index :: nat

text \<open>
  \<^verbatim>\<open>generateNarrations\<close>: one request per clip, always English, zen, 30 seconds. A throw
  is logged and the clip left out.
\<close>

fun generateNarrations_loop ::
    "'a worker_env_scheme \<Rightarrow> jsval list \<Rightarrow> nat \<Rightarrow> narration_info list \<Rightarrow> world
      \<Rightarrow> narration_info list \<times> world" where
  "generateNarrations_loop e [] i results w = (results, w)"
| "generateNarrations_loop e (clip # clips) i results w =
     (let w = call Narrate w in
      case generateNarration e \<lparr>lang = en, style = zen, durationSec = 30, req_context = None\<rparr> of
        Inr n \<Rightarrow>
          generateNarrations_loop e clips (i + 1)
            (results @ [\<lparr>clipPath = clip, narration = n, index = i\<rparr>]) w
      | Inl err \<Rightarrow> generateNarrations_loop e clips (i + 1) results w)"

definition generateNarrations ::
    "'a worker_env_scheme \<Rightarrow> jsval list \<Rightarrow> world \<Rightarrow> narration_info list \<times> world" where
  "generateNarrations e clips w = generateNarrations_loop e clips 0 [] w"

record audio_info = narration_info +
  audioPath :: string
  srtPath :: string

text \<open>
  One iteration of \<^verbatim>\<open>generateAudioAndSubtitles\<close>: the body of the \<^verbatim>\<open>try\<close>, with
  \<open>None\<close> for a throw. The voice input has neither a voice nor a provider. A narration
  text that is not a string makes the synthesizer throw.
\<close>

definition audio_and_subs_step ::
    "'a worker_env_scheme \<Rightarrow> narration_info \<Rightarrow> world \<Rightarrow> audio_info option \<times> world" where
  "audio_and_subs_step e info w =
     (let audio = samples_dir e @ ''/tts/'' @ showNat (index info) @ ''_voice.wav'';
          srt = samples_dir e @ ''/subs/'' @ showNat (index info) @ ''.srt''
      in case get_prop (narration info) ''narration'' of
           Inr (JStr txt) \<Rightarrow>
             (let w = call Synthesize w in
              case synthesizeVoice e
                     \<lparr>input_text = txt, voiceId = None, outPath = audio, provider = None\<rparr>
                     (files w) of
                (Inl err, fs) \<Rightarrow> (None, w\<lparr>files := fs\<rparr>)
              | (Inr p, fs) \<Rightarrow>
                  (let w = call Subtitle (w\<lparr>files := fs\<rparr>) in
                   case writeFile e srt (SrtText (generateSimpleSRT txt)) (files w) of
                     Inl err \<Rightarrow> (None, w)
                   | Inr fs' \<Rightarrow>
                       (Some (narration_info.extend info \<lparr>audioPath = audio, srtPath = srt\<rparr>),
                        w\<lparr>files := fs'\<rparr>)))
         | _ \<Rightarrow> (None, w))"

fun generateAudioAndSubtitles_loop ::
    "'a worker_env_scheme \<Rightarrow> narration_info list \<Rightarrow> audio_info list \<Rightarrow> world
      \<Rightarrow> audio_info list \<times> world" where
  "generateAudioAndSubtitles_loop e [] results w = (results, w)"
| "generateAudioAndSubtitles_loop e (info # infos) results w =
     (case audio_and_subs_step e info w of
        (Some a, w') \<Rightarrow> generateAudioAndSubtitles_loop e infos (results @ [a]) w'
      | (None, w') \<Rightarrow> generateAudioAndSubtitles_loop e infos results w')"

definition generateAudioAndSubtitles ::
    "'a worker_env_scheme \<Rightarrow> narration_info list \<Rightarrow> world \<Rightarrow> audio_info list \<times> world" where
  "generateAudioAndSubtitles e infos w = generateAudioAndSubtitles_loop e infos [] w"

record final_info = audio_info +
  finalPath :: string
  metadata :: jsval

text \<open>
  One iteration of \<^verbatim>\<open>createFinalMontage\<close>: the montage program must exit with code 0,
  otherwise the rejection is caught, logged, and the clip left out.
\<close>

definition montage_step ::
    "'a worker_env_scheme \<Rightarrow> audio_info \<Rightarrow> world \<Rightarrow> final_info option \<times> world" where
  "montage_step e info w =
     (let outputPath = samples_dir e @ ''/shorts/'' @ showNat (index info) @ ''_final.mp4'';
          w = call Compose w
      in case clipPath info of
           JStr clip \<Rightarrow>
             if auto_edit_py e clip (audioPath info) (srtPath info) outputPath = 0
             then
               (case and_then (get_prop (narration info) ''title'') (\<lambda>t.
                     and_then (get_prop (narration info) ''caption'') (\<lambda>c.
                     and_then (get_prop (narration info) ''hashtags'') (\<lambda>h.
                       Inr (JObj [(''title'', t), (''caption'', c), (''hashtags'', h)])))) of
                  Inr m \<Rightarrow>
                    (Some (audio_info.extend info \<lparr>finalPath = outputPath, metadata = m\<rparr>), w)
                | Inl err \<Rightarrow> (None, w))
             else (None, w)
         | _ \<Rightarrow> (None, w))"

fun createFinalMontage_loop ::
    "'a worker_env_scheme \<Rightarrow> audio_info list \<Rightarrow> final_info list \<Rightarrow> world
      \<Rightarrow> final_info list \<times> world" where
  "createFinalMontage_loop e [] results w = (results, w)"
| "createFinalMontage_loop e (info # infos) results w =
     (case montage_step e info w of
        (Some f, w') \<Rightarrow> createFinalMontage_loop e infos (results @ [f]) w'
      | (None, w') \<Rightarrow> createFinalMontage_loop e infos results w')"

definition createFinalMontage ::
    "'a worker_env_scheme \<Rightarrow> audio_info list \<Rightarrow> world \<Rightarrow> final_info list \<times> world" where
  "createFinalMontage e infos w = createFinalMontage_loop e infos [] w"

record uploaded_info = final_info +
  up_driveFile :: jsval
  up_driveLink :: jsval

record upload_results =
  folderId :: jsval
  folderLink :: jsval
  uploadedFiles :: "uploaded_info list"

text \<open>
  One iteration of the upload loop of \<^verbatim>\<open>uploadResultsToDrive\<close>: a response that is not
  \<^verbatim>\<open>ok\<close> is passed over in silence, a throw is caught and logged.
\<close>

definition upload_step ::
    "'a worker_env_scheme \<Rightarrow> jsval \<Rightarrow> final_info \<Rightarrow> world \<Rightarrow> uploaded_info option \<times> world" where
  "upload_step e folder video w =
     (let w = call Upload w in
      case drive_upload e (finalPath video) (path_basename e (finalPath video)) folder of
        Rejected m \<Rightarrow> (None, w)
      | Responded r \<Rightarrow>
          if ok r then
            (case body_json r of
               None \<Rightarrow> (None, w)
             | Some uploadResult \<Rightarrow>
                 (case and_then (get_prop uploadResult ''file'') (\<lambda>f.
                       and_then (get_prop f ''webViewLink'') (\<lambda>l. Inr (f, l))) of
                    Inr (f, l) \<Rightarrow>
                      (Some (final_info.extend video \<lparr>up_driveFile = f, up_driveLink = l\<rparr>), w)
                  | Inl err \<Rightarrow> (None, w)))
          else (None, w))"

fun upload_loop ::
    "'a worker_env_scheme \<Rightarrow> jsval \<Rightarrow> final_info list \<Rightarrow> uploaded_info list \<Rightarrow> world
      \<Rightarrow> uploaded_info list \<times> world" where
  "upload_loop e folder [] results w = (results, w)"
| "upload_loop e folder (video # videos) results w =
     (case upload_step e folder video w of
        (Some u, w') \<Rightarrow> upload_loop e folder videos (results @ [u]) w'
      | (None, w') \<Rightarrow> upload_loop e folder videos results w')"

text \<open>\<^verbatim>\<open>uploadResultsToDrive\<close>: a failure to create the folder is thrown to the caller.\<close>

definition uploadResultsToDrive ::
    "'a worker_env_scheme \<Rightarrow> final_info list \<Rightarrow> drive_file \<Rightarrow> world
      \<Rightarrow> (error + upload_results) \<times> world" where
  "uploadResultsToDrive e videos originalDriveFile w =
     (let folderName = ''ContentEngine_'' @ name originalDriveFile @ ''_'' @ today e;
          w = call CreateFolder w
      in case drive_create_folder e folderName of
           Rejected m \<Rightarrow> (Inl (Error m), w)
         | Responded r \<Rightarrow>
             if \<not> ok r then (Inl (Error ''Failed to create Drive folder''), w)
             else
               (case body_json r of
                  None \<Rightarrow> (Inl SyntaxError, w)
                | Some folder \<Rightarrow>
                    (case and_then (get_prop folder ''folder'') (\<lambda>f. get_prop f ''id'') of
                       Inl err \<Rightarrow> (Inl err, w)
                     | Inr fid \<Rightarrow>
                         (case upload_loop e fid videos [] w of
                            (results, w') \<Rightarrow>
                              (case and_then (get_prop folder ''folder'')
                                      (\<lambda>f. get_prop f ''webViewLink'') of
                                 Inl err \<Rightarrow> (Inl err, w')
                               | Inr link \<Rightarrow>
                                   (Inr \<lparr>folderId = fid, folderLink = link,
                                         uploadedFiles = results\<rparr>, w'))))))"

record clip_result =
  success :: bool
  clipId :: string
  inputPath :: jsval
  finalVideos :: "final_info list"
  uploadResults :: "upload_results option"

text \<open>\<^verbatim>\<open>Array.isArray(clipsInfo) ? clipsInfo : [clipsInfo]\<close>\<close>

definition as_array :: "jsval \<Rightarrow> jsval list" where
  "as_array v = (case v of JArr xs \<Rightarrow> xs | _ \<Rightarrow> [v])"

text \<open>
  \<^verbatim>\<open>processClip\<close>. The outer \<^verbatim>\<open>catch\<close> logs and rethrows, so a throw of the download,
  of the ingestion or of the upload is the result. The time stamp of the result is left
  out.
\<close>

definition processClip ::
    "'a worker_env_scheme \<Rightarrow> string \<Rightarrow> 'b job_data_scheme \<Rightarrow> world
      \<Rightarrow> (error + clip_result) \<times> world" where
  "processClip e cid jobData w0 =
     (let w1 = updateProgress 5 w0 in
      case (case driveFile jobData of
              Some df \<Rightarrow>
                (case downloadFromDrive e (fileId jobData) cid w1 of
                   (Inl err, w) \<Rightarrow> (Inl err, w)
                 | (Inr p, w) \<Rightarrow> (Inr p, updateProgress 15 w))
            | None \<Rightarrow> (Inr (JStr (samples_dir e @ ''/clips/'' @ cid @ ''.mp4'')), w1)) of
        (Inl err, w2) \<Rightarrow> (Inl err, w2)
      | (Inr localVideoPath, w2) \<Rightarrow>
          (case ingestVideo e localVideoPath cid w2 of
             (Inl err, w3) \<Rightarrow> (Inl err, w3)
           | (Inr clipsInfo, w3) \<Rightarrow>
               (case generateNarrations e (as_array clipsInfo) (updateProgress 35 w3) of
                  (narrationsInfo, w4) \<Rightarrow>
               (case generateAudioAndSubtitles e narrationsInfo (updateProgress 55 w4) of
                  (audioInfo, w5) \<Rightarrow>
               (case createFinalMontage e audioInfo (updateProgress 75 w5) of
                  (videos, w6) \<Rightarrow>
               (case (case driveFile jobData of
                        Some df \<Rightarrow>
                          (case uploadResultsToDrive e videos df (updateProgress 90 w6) of
                             (Inl err, w) \<Rightarrow> (Inl err, w)
                           | (Inr u, w) \<Rightarrow> (Inr (Some u), w))
                      | None \<Rightarrow> (Inr None, updateProgress 90 w6)) of
                  (Inl err, w7) \<Rightarrow> (Inl err, w7)
                | (Inr up, w7) \<Rightarrow>
                    (Inr \<lparr>success = True, clipId = cid, inputPath = localVideoPath,
                          finalVideos = videos, uploadResults = up\<rparr>,
                     updateProgress 100 w7)))))))"

section \<open>Worker: the publish processor (apps/worker/processors/publishProcessor)\<close>

text \<open>The readings of the clock made during one publication.\<close>

record clock =
  upload_ms :: nat
  receipt_ms :: nat
  receipt_iso :: string
  return_iso :: string

definition uploadToPlatform :: "nat \<Rightarrow> string \<Rightarrow> string \<Rightarrow> error + jsval" where
  "uploadToPlatform now cid platform =
     (let publishId = platform @ ''_'' @ cid @ ''_'' @ showNat now in
      if platform = ''youtube'' then
        Inr (JObj [(''publishId'', JStr publishId),
                   (''url'', JStr (''https://youtube.com/watch?v='' @ publishId)),
                   (''platform'', JStr ''youtube'')])
      else if platform = ''tiktok'' then
        Inr (JObj [(''publishId'', JStr publishId),
                   (''url'', JStr (''https://tiktok.com/@user/video/'' @ publishId)),
                   (''platform'', JStr ''tiktok'')])
      else if platform = ''meta'' then
        Inr (JObj [(''publishId'', JStr publishId),
                   (''url'', JStr (''https://facebook.com/video/'' @ publishId)),
                   (''platform'', JStr ''meta'')])
      else Inl (Error (''Unsupported platform: '' @ platform)))"

definition receiptPath :: "'a worker_env_scheme \<Rightarrow> string \<Rightarrow> string \<Rightarrow> nat \<Rightarrow> string" where
  "receiptPath e cid platform now =
     samples_dir e @ ''/receipts'' @ ''/'' @ cid @ ''_'' @ platform @ ''_'' @ showNat now @ ''.json''"

text \<open>
  \<^verbatim>\<open>savePublishReceipt\<close>: a failure to create the directory is ignored; the receipt is
  written to a path that carries the time of writing. Nothing is looked up beforehand.
\<close>

definition savePublishReceipt ::
    "'a worker_env_scheme \<Rightarrow> clock \<Rightarrow> string \<Rightarrow> string \<Rightarrow> jsval \<Rightarrow> fsys \<Rightarrow> error + fsys" where
  "savePublishReceipt e clk cid platform result fs =
     and_then (get_prop result ''publishId'') (\<lambda>pid.
     and_then (get_prop result ''url'') (\<lambda>url.
       writeFile e (receiptPath e cid platform (receipt_ms clk))
         (JsonText (JObj [(''clipId'', JStr cid),
                          (''platform'', JStr platform),
                          (''publishId'', pid),
                          (''url'', url),
                          (''publishedAt'', JStr (receipt_iso clk)),
                          (''success'', JBool True)]))
         fs))"

definition publishContent ::
    "'a worker_env_scheme \<Rightarrow> clock \<Rightarrow> string \<Rightarrow> string \<Rightarrow> world \<Rightarrow> (error + jsval) \<times> world" where
  "publishContent e clk cid platform w0 =
     (let w = updateProgress 50 (updateProgress 25 (updateProgress 10 w0)) in
      case uploadToPlatform (upload_ms clk) cid platform of
        Inl err \<Rightarrow> (Inl err, w)
      | Inr result \<Rightarrow>
          (let w = updateProgress 90 (updateProgress 75 w) in
           case savePublishReceipt e clk cid platform result (files w) of
             Inl err \<Rightarrow> (Inl err, w)
           | Inr fs \<Rightarrow>
               (case and_then (get_prop result ''publishId'') (\<lambda>pid.
                     and_then (get_prop result ''url'') (\<lambda>url.
                       Inr (JObj [(''success'', JBool True),
                                  (''clipId'', JStr cid),
                                  (''platform'', JStr platform),
                                  (''publishId'', pid),
                                  (''url'', url),
                                  (''publishedAt'', JStr (return_iso clk))]))) of
                  Inl err \<Rightarrow> (Inl err, updateProgress 100 (w\<lparr>files := fs\<rparr>))
                | Inr r \<Rightarrow> (Inr r, updateProgress 100 (w\<lparr>files := fs\<rparr>)))))"

text \<open>The receipts on disk for one clip and one platform.\<close>

definition is_receipt_for :: "string \<Rightarrow> string \<Rightarrow> string \<times> file_content \<Rightarrow> bool" where
  "is_receipt_for cid platform entry =
     (case snd entry of
        JsonText v \<Rightarrow>
          get_prop v ''clipId'' = Inr (JStr cid) \<and> get_prop v ''platform'' = Inr (JStr platform)
      | _ \<Rightarrow> False)"

definition receipts_for :: "string \<Rightarrow> string \<Rightarrow> fsys \<Rightarrow> (string \<times> file_content) list" where
  "receipts_for cid platform fs = filter (is_receipt_for cid platform) fs"

section \<open>Scheduler: the TikTok publisher (services/scheduler/publishers/tiktok)\<close>

record PublishOptions =
  pub_clipPath :: string
  pub_title :: "string option"
  pub_caption :: "string option"
  pub_hashtags :: "string list option"

text \<open>
  \<^verbatim>\<open>writeReceiptFile\<close>: the receipt goes to \<^verbatim>\<open>.out/publish/<platform>/<externalId>.json\<close>
  under the working directory. Nothing is looked up beforehand.
\<close>

definition receiptFile :: "'a env_scheme \<Rightarrow> string \<Rightarrow> string \<Rightarrow> string" where
  "receiptFile e platform externalId =
     path_resolve e (''.out/publish/'' @ platform) @ ''/'' @ externalId @ ''.json''"

definition writeReceiptFile ::
    "'a env_scheme \<Rightarrow> string \<Rightarrow> string \<Rightarrow> jsval \<Rightarrow> fsys \<Rightarrow> error + fsys" where
  "writeReceiptFile e platform externalId result fs =
     (if mkdir_fails e (path_resolve e (''.out/publish/'' @ platform))
      then Inl (Error (''EACCES: '' @ path_resolve e (''.out/publish/'' @ platform)))
      else writeFile e (receiptFile e platform externalId) (JsonText result) fs)"

text \<open>
  \<^verbatim>\<open>publish\<close>, given the two things it draws from outside: the clock (milliseconds and
  ISO text) and the random suffix of the external id. The default caption is kept
  without its emoji.
\<close>

definition tiktok_publish ::
    "'a env_scheme \<Rightarrow> nat \<Rightarrow> string \<Rightarrow> string \<Rightarrow> PublishOptions \<Rightarrow> fsys
      \<Rightarrow> (error + jsval) \<times> fsys" where
  "tiktok_publish e now rnd created options fs =
     (let externalId = ''tt-'' @ showNat now @ ''-'' @ rnd;
          result = JObj
            [(''externalId'', JStr externalId),
             (''platform'', JStr ''TIKTOK''),
             (''clipPath'', JStr (pub_clipPath options)),
             (''title'', JStr (or_else (pub_title options) ''Amazing diving content'')),
             (''caption'', JStr (or_else (pub_caption options) ''Check out this amazing dive!'')),
             (''hashtags'', JArr (map JStr
                (case pub_hashtags options of
                   Some tags \<Rightarrow> tags
                 | None \<Rightarrow> [''#diving'', ''#ocean'', ''#underwater'']))),
             (''createdAt'', JStr created),
             (''uploadUrl'', JStr (''https://tiktok.com/@user/video/'' @ externalId)),
             (''thumbnailUrl'',
                JStr (''https://p16-sign-sg.tiktokcdn.com/obj/'' @ externalId @ ''.jpg'')),
             (''isDryRun'', JBool (process_env e ''DRY_RUN'' = Some ''true''))]
      in if process_env e ''DRY_RUN'' \<noteq> Some ''true'' then
           (case writeReceiptFile e ''tiktok'' externalId result fs of
              Inl err \<Rightarrow> (Inl err, fs)
            | Inr fs' \<Rightarrow> (Inr result, fs'))
         else (Inr result, fs))"

section \<open>Worker: job dispatch (apps/worker/worker)\<close>

record ProcessingJobData = job_data +
  job_type :: string
  job_clipId :: "string option"
  job_platform :: "string option"

text \<open>\<^verbatim>\<open>processJob\<close>: every throw is logged and thrown again to the queue.\<close>

definition processJob ::
    "'a worker_env_scheme \<Rightarrow> clock \<Rightarrow> 'b ProcessingJobData_scheme \<Rightarrow> world
      \<Rightarrow> (error + (clip_result + jsval)) \<times> world" where
  "processJob e clk d w =
     (if job_type d = ''process-clip'' then
        (if \<not> truthy (job_clipId d)
         then (Inl (Error ''clipId is required for clip processing''), w)
         else
           case processClip e (the (job_clipId d)) d w of
             (Inl err, w') \<Rightarrow> (Inl err, w')
           | (Inr r, w') \<Rightarrow> (Inr (Inl r), w'))
      else if job_type d = ''publish-content'' then
        (if \<not> truthy (job_clipId d) \<or> \<not> truthy (job_platform d)
         then (Inl (Error ''clipId and platform are required for publishing''), w)
         else
           case publishContent e clk (the (job_clipId d)) (the (job_platform d)) w of
             (Inl err, w') \<Rightarrow> (Inl err, w')
           | (Inr r, w') \<Rightarrow> (Inr (Inr r), w'))
      else (Inl (Error (''Unknown job type: '' @ job_type d)), w))"

section \<open>Queue configuration (apps/dashboard/lib/queue)\<close>

datatype backoff_type = fixed | exponential

record backoff_options =
  backoff_kind :: backoff_type
  delay :: nat

record job_options =
  removeOnComplete :: nat
  removeOnFail :: nat
  attempts :: nat
  backoff :: backoff_options

definition defaultJobOptions :: job_options where
  "defaultJobOptions =
     \<lparr>removeOnComplete = 50, removeOnFail = 20, attempts = 3,
      backoff = \<lparr>backoff_kind = exponential, delay = 2000\<rparr>\<rparr>"

text \<open>The job states of \<^verbatim>\<open>packages/core/types\<close>.\<close>

datatype JobStatus = QUEUED | RUNNING | DONE | ERROR | CANCELLED

record 'r queue_job =
  job_status :: JobStatus
  attemptsMade :: nat
  lastError :: "error option"
  returnvalue :: "'r option"
  backoff_delays :: "nat list"

text \<open>
  Modelled from the spec: the delay before a retry, computed by the queue library, which
  is not part of the repository. "Exponential backoff (base delay times 2 to the power
  retryCount)", where \<open>retryCount\<close> counts the retries already made.
\<close>

definition backoff_delay :: "job_options \<Rightarrow> nat \<Rightarrow> nat" where
  "backoff_delay opts retryCount =
     (case backoff_kind (backoff opts) of
        exponential \<Rightarrow> delay (backoff opts) * 2 ^ retryCount
      | fixed \<Rightarrow> delay (backoff opts))"

text \<open>
  Modelled from the spec: the queue library's handling of one job, which is not part of
  the repository. The processor runs; when it throws and fewer attempts than the
  configured maximum have been made, the job is put back in the queue with the backoff
  delay and runs again; when it throws on the last attempt allowed, the job ends in
  \<open>ERROR\<close> with the message of that throw. Every throw is retried alike: the worker
  does not tell a transient failure from a permanent one.
\<close>

function run_job ::
    "job_options \<Rightarrow> (world \<Rightarrow> (error + 'r) \<times> world) \<Rightarrow> 'r queue_job \<Rightarrow> world
      \<Rightarrow> 'r queue_job \<times> world" where
  "run_job opts processor j w =
     (if attemptsMade j + 1 < attempts opts then
        (case processor w of
           (Inr v, w') \<Rightarrow>
             (j\<lparr>job_status := DONE, attemptsMade := attemptsMade j + 1, returnvalue := Some v\<rparr>, w')
         | (Inl err, w') \<Rightarrow>
             run_job opts processor
               (j\<lparr>job_status := QUEUED, attemptsMade := attemptsMade j + 1,
                  lastError := Some err,
                  backoff_delays := backoff_delays j @ [backoff_delay opts (attemptsMade j)]\<rparr>)
               w')
      else
        (case processor w of
           (Inr v, w') \<Rightarrow>
             (j\<lparr>job_status := DONE, attemptsMade := attemptsMade j + 1, returnvalue := Some v\<rparr>, w')
         | (Inl err, w') \<Rightarrow>
             (j\<lparr>job_status := ERROR, attemptsMade := attemptsMade j + 1,
                lastError := Some err\<rparr>, w')))"
  by pat_completeness auto
termination
  by (relation "measure (\<lambda>(opts, processor, j, w). attempts opts - attemptsMade j)") auto

declare run_job.simps [simp del]

definition new_job :: "'r queue_job" where
  "new_job = \<lparr>job_status = QUEUED, attemptsMade = 0, lastError = None, returnvalue = None,
              backoff_delays = []\<rparr>"

section \<open>Concrete environments\<close>

text \<open>
  A machine with no API key and no network whose file system accepts every write, and a
  request, used to evaluate the definitions above on concrete inputs.
\<close>

definition offline_env :: env where
  "offline_env =
     \<lparr>process_env = (\<lambda>k. None),
      JSON_parse = (\<lambda>v. None),
      openai_chat = (\<lambda>k r. Rejected ''offline''),
      gemini_generate = (\<lambda>k r. Rejected ''offline''),
      elevenlabs_tts = (\<lambda>k v t. Rejected ''offline''),
      openai_speech = (\<lambda>k t. Rejected ''offline''),
      path_resolve = (\<lambda>p. ''/srv/'' @ p),
      path_dirname = (\<lambda>p. ''/srv''),
      mkdir_fails = (\<lambda>p. False),
      writeFile_fails = (\<lambda>p. False)\<rparr>"



definition studio_env :: worker_env where
  "studio_env = env.extend offline_env
     \<lparr>samples_dir = ''/srv/samples'',
      drive_download = (\<lambda>f p. Rejected ''offline''),
      ingest_py = (\<lambda>p. (0, '''', '''')),
      auto_edit_py = (\<lambda>c v s out. 0),
      drive_create_folder = (\<lambda>n. Rejected ''offline''),
      drive_upload = (\<lambda>p n f. Rejected ''offline''),
      path_basename = (\<lambda>p. p),
      today = ''2025-10-19''\<rparr>"

text \<open>The same machine with a montage program that exits with code 1.\<close>

definition broken_montage_env :: worker_env where
  "broken_montage_env = studio_env\<lparr>auto_edit_py := (\<lambda>c v s out. 1)\<rparr>"

text \<open>The studio machine with an ingestion program that exits with code 2.\<close>

definition failed_ingest_env :: worker_env where
  "failed_ingest_env = studio_env\<lparr>ingest_py := (\<lambda>p. (2, '''', ''no video stream''))\<rparr>"

definition local_job :: job_data where
  "local_job = \<lparr>driveFile = None, fileId = ''''\<rparr>"

definition job_without_clip :: ProcessingJobData where
  "job_without_clip =
     \<lparr>driveFile = None, fileId = '''', job_type = ''process-clip'', job_clipId = None,
      job_platform = None\<rparr>"


definition sample_clock :: clock where
  "sample_clock =
     \<lparr>upload_ms = 1000, receipt_ms = 1001, receipt_iso = ''2025-10-19T00:00:01.001Z'',
      return_iso = ''2025-10-19T00:00:01.002Z''\<rparr>"

definition sample_options :: PublishOptions where
  "sample_options =
     \<lparr>pub_clipPath = ''clip.mp4'', pub_title = None, pub_caption = None, pub_hashtags = None\<rparr>"

definition later_clock :: clock where
  "later_clock =
     \<lparr>upload_ms = 2000, receipt_ms = 2001, receipt_iso = ''2025-10-19T00:00:02.001Z'',
      return_iso = ''2025-10-19T00:00:02.002Z''\<rparr>"

section \<open>Observations on a run\<close>

text \<open>The progress values reported in a trace, in order, and the number of calls to a stage.\<close>

fun progress_values :: "event list \<Rightarrow> nat list" where
  "progress_values [] = []"
| "progress_values (Progress n # es) = n # progress_values es"
| "progress_values (Call s # es) = progress_values es"

definition calls :: "stage \<Rightarrow> event list \<Rightarrow> nat" where
  "calls s es = length (filter (\<lambda>ev. ev = Call s) es)"

text \<open>
  A job that has reported nothing yet, and what a step returns and records when started
  on it.
\<close>

definition fresh :: world where
  "fresh = \<lparr>progress = 0, trace = [], files = []\<rparr>"

definition result_of :: "(world \<Rightarrow> 'a \<times> world) \<Rightarrow> 'a" where
  "result_of f = fst (f fresh)"

definition trace_of :: "(world \<Rightarrow> 'a \<times> world) \<Rightarrow> event list" where
  "trace_of f = trace (snd (f fresh))"

section \<open>Verified properties\<close>

subsection \<open>Subtitle timing\<close>









text \<open>
  Claim C9, as the code has it. A narration with no sentence (empty, blank or
  punctuation only) makes \<open>generateSubtitles\<close> produce no entry at all: the loop body
  never runs, the quotient by zero is computed and never used, and the SRT file written
  is empty.
\<close>

theorem no_sentence_no_entry:
  assumes "sentences text = []"
  shows "generateSubtitles text d = []
         \<and> timePerSentence d (length (sentences text)) = None"
  using assms by (simp add: generateSubtitles_def timePerSentence_def)

theorem no_sentence_no_entry_witness:
  "sentences ''...'' = [] \<and> generateSubtitles ''...'' 30 = []"
proof -
  have h: "sentences ''...'' = []"
    by code_simp
  show ?thesis
    using no_sentence_no_entry [OF h, of 30] h by simp
qed

text \<open>
  The claim as worded asks for one entry from 0 to the clip duration; the empty narration
  of a 30 second clip gets none.
\<close>

theorem no_sentence_counterexample:
  "sentences '''' = [] \<and> length (generateSubtitles '''' 30) = 0"
  by code_simp

subsection \<open>Narration generator\<close>

lemma z_stringD: "z_string v \<Longrightarrow> \<exists>s. v = JStr s"
  by (cases v) (simp_all add: z_string_def)

lemma z_hashtagsD:
  "z_hashtags v \<Longrightarrow> \<exists>hs. v = JArr hs \<and> 6 \<le> length hs \<and> length hs \<le> 20 \<and> list_all z_string hs"
  by (cases v) (simp_all add: z_hashtags_def)

lemma ResultSchema_parse_shape:
  "ResultSchema_parse v = Inr w \<Longrightarrow>
   \<exists>t n c hs. w = JObj [(''title'', JStr t), (''narration'', JStr n),
                        (''caption'', JStr c), (''hashtags'', JArr hs)]
              \<and> 6 \<le> length hs \<and> length hs \<le> 20 \<and> list_all z_string hs"
  unfolding ResultSchema_parse_def
  by (cases v) (auto split: if_splits dest!: z_stringD z_hashtagsD)

lemma ResultSchema_parse_idem:
  assumes "ResultSchema_parse v = Inr w"
  shows "ResultSchema_parse w = Inr w"
proof -
  from ResultSchema_parse_shape [OF assms] obtain t n c hs where
    "w = JObj [(''title'', JStr t), (''narration'', JStr n),
               (''caption'', JStr c), (''hashtags'', JArr hs)]"
    "6 \<le> length hs" "length hs \<le> 20" "list_all z_string hs"
    by blast
  then show ?thesis
    by (simp add: ResultSchema_parse_def own_def z_string_def z_hashtags_def)
qed

lemma generateStub_eq: "generateStub req = Inr stub_out"
  by (simp add: generateStub_def ResultSchema_parse_def stub_out_def own_def z_string_def
      z_hashtags_def)

lemma stub_out_accepted: "ResultSchema_parse stub_out = Inr stub_out"
  using generateStub_eq [of undefined] by (simp add: generateStub_def)

lemma generateWithOpenAI_accepted:
  "generateWithOpenAI e req = Inr w \<Longrightarrow> ResultSchema_parse w = Inr w"
  unfolding generateWithOpenAI_def and_then_def
  by (auto split: if_splits fetch_result.splits option.splits sum.splits
      simp: generateStub_eq stub_out_accepted dest: ResultSchema_parse_idem)

lemma generateWithGemini_accepted:
  "generateWithGemini e req = Inr w \<Longrightarrow> ResultSchema_parse w = Inr w"
  unfolding generateWithGemini_def and_then_def
  by (auto split: if_splits fetch_result.splits option.splits sum.splits
      simp: generateStub_eq stub_out_accepted dest: ResultSchema_parse_idem)

lemma generateNarration_cases:
  "generateNarration e req = Inr stub_out
   \<or> (\<exists>w. generateNarration e req = Inr w
          \<and> (generateWithOpenAI e req = Inr w \<or> generateWithGemini e req = Inr w))"
  unfolding generateNarration_def Let_def
  by (auto split: sum.splits simp: generateStub_eq)

lemma generateNarration_total:
  "\<exists>w. generateNarration e req = Inr w \<and> ResultSchema_parse w = Inr w"
  using generateNarration_cases [of e req]
  by (auto simp: stub_out_accepted dest: generateWithOpenAI_accepted generateWithGemini_accepted)


text \<open>
  Claim C10. Whatever the environment and the request, \<open>generateNarration\<close> returns
  (it never throws), and what it returns is an object of exactly the four keys of the
  result schema, with strings for title, narration and caption and an array of between 6
  and 20 strings for the hashtags; the schema accepts it unchanged.
\<close>

theorem generateNarration_validated:
  "\<exists>t n c hs.
     generateNarration e req =
       Inr (JObj [(''title'', JStr t), (''narration'', JStr n),
                  (''caption'', JStr c), (''hashtags'', JArr hs)])
     \<and> 6 \<le> length hs \<and> length hs \<le> 20 \<and> list_all z_string hs
     \<and> ResultSchema_parse (JObj [(''title'', JStr t), (''narration'', JStr n),
                                  (''caption'', JStr c), (''hashtags'', JArr hs)])
         = Inr (JObj [(''title'', JStr t), (''narration'', JStr n),
                      (''caption'', JStr c), (''hashtags'', JArr hs)])"
proof -
  obtain w where w: "generateNarration e req = Inr w" "ResultSchema_parse w = Inr w"
    using generateNarration_total by blast
  from ResultSchema_parse_shape [OF w(2)] obtain t n c hs where
    shape: "w = JObj [(''title'', JStr t), (''narration'', JStr n),
                      (''caption'', JStr c), (''hashtags'', JArr hs)]"
    and len: "6 \<le> length hs" "length hs \<le> 20" "list_all z_string hs"
    by blast
  from w shape len show ?thesis by blast
qed

subsection \<open>Voice synthesizer\<close>






subsection \<open>Worker: bookkeeping\<close>

lemma updateProgress_simps [simp]:
  "trace (updateProgress n w) = trace w @ [Progress n]"
  "progress (updateProgress n w) = n"
  "files (updateProgress n w) = files w"
  by (simp_all add: updateProgress_def)

lemma call_simps [simp]:
  "trace (call s w) = trace w @ [Call s]"
  "progress (call s w) = progress w"
  "files (call s w) = files w"
  by (simp_all add: call_def)

lemma progress_values_append [simp]:
  "progress_values (a @ b) = progress_values a @ progress_values b"
  by (induction a rule: progress_values.induct) simp_all

lemma calls_simps [simp]:
  "calls s [] = 0"
  "calls s (a @ b) = calls s a + calls s b"
  "calls s (Progress n # es) = calls s es"
  "calls s (Call t # es) = (if t = s then 1 else 0) + calls s es"
  by (auto simp: calls_def)

lemma fresh_simps [simp]:
  "trace fresh = []" "progress fresh = 0" "files fresh = []"
  by (simp_all add: fresh_def)

subsection \<open>Worker: what a stage returns and records does not depend on the job's past\<close>

lemma downloadFromDrive_result:
  "fst (downloadFromDrive e fid cid w) = result_of (downloadFromDrive e fid cid)"
  unfolding result_of_def downloadFromDrive_def Let_def
  by (simp split: fetch_result.split option.split)

lemma downloadFromDrive_trace:
  "trace (snd (downloadFromDrive e fid cid w)) = trace w @ [Call Download]"
  unfolding downloadFromDrive_def Let_def
  by (simp split: fetch_result.split option.split)

lemma downloadFromDrive_progress:
  "progress (snd (downloadFromDrive e fid cid w)) = progress w"
  unfolding downloadFromDrive_def Let_def
  by (simp split: fetch_result.split option.split)

lemma ingestVideo_result:
  "fst (ingestVideo e p cid w) = result_of (ingestVideo e p cid)"
  unfolding result_of_def ingestVideo_def Let_def
  by (simp split: jsval.split prod.split sum.split)

lemma ingestVideo_trace:
  "trace (snd (ingestVideo e p cid w)) = trace w @ [Call Ingest]"
  unfolding ingestVideo_def Let_def
  by (simp split: jsval.split prod.split sum.split)

lemma ingestVideo_progress:
  "progress (snd (ingestVideo e p cid w)) = progress w"
  unfolding ingestVideo_def Let_def
  by (simp split: jsval.split prod.split sum.split)

lemma generateNarrations_loop_rel:
  "trace w = l @ trace v \<Longrightarrow>
   fst (generateNarrations_loop e clips i acc w) = fst (generateNarrations_loop e clips i acc v)
   \<and> trace (snd (generateNarrations_loop e clips i acc w))
       = l @ trace (snd (generateNarrations_loop e clips i acc v))"
proof (induction clips arbitrary: i acc w v)
  case Nil
  then show ?case by simp
next
  case (Cons clip clips)
  have step: "trace (call Narrate w) = l @ trace (call Narrate v)"
    using Cons.prems by simp
  show ?case
    using Cons.IH [OF step] by (simp add: Let_def split: sum.split)
qed

lemma generateNarrations_loop_inv:
  assumes "\<And>u. g (call Narrate u) = g u"
  shows "g (snd (generateNarrations_loop e clips i acc w)) = g w"
proof (induction clips arbitrary: i acc w)
  case Nil
  then show ?case by simp
next
  case (Cons clip clips)
  show ?case
    using Cons.IH [of _ _ "call Narrate w"] assms by (simp add: Let_def split: sum.split)
qed

lemma generateNarrations_result:
  "fst (generateNarrations e clips w) = result_of (generateNarrations e clips)"
proof -
  have "trace w = trace w @ trace fresh" by simp
  from generateNarrations_loop_rel [OF this, of e clips 0 "[]"] show ?thesis
    by (simp add: result_of_def generateNarrations_def)
qed

lemma generateNarrations_trace:
  "trace (snd (generateNarrations e clips w)) = trace w @ trace_of (generateNarrations e clips)"
proof -
  have "trace w = trace w @ trace fresh" by simp
  from generateNarrations_loop_rel [OF this, of e clips 0 "[]"] show ?thesis
    by (simp add: trace_of_def generateNarrations_def)
qed

lemma generateNarrations_inv:
  assumes "\<And>u. g (call Narrate u) = g u"
  shows "g (snd (generateNarrations e clips w)) = g w"
  unfolding generateNarrations_def using assms by (rule generateNarrations_loop_inv)

lemma fst_synthesizeVoice_files:
  "fst (synthesizeVoice e input fs) = fst (synthesizeVoice e input fs')"
  unfolding synthesizeVoice_def synthesizeWithElevenLabs_def synthesizeWithOpenAI_def
    synthesizeBeep_def writeFile_def Let_def
  by (simp split: fetch_result.split)

lemma audio_and_subs_step_rel:
  assumes "trace w = l @ trace v"
  shows "fst (audio_and_subs_step e info w) = fst (audio_and_subs_step e info v)
   \<and> trace (snd (audio_and_subs_step e info w)) = l @ trace (snd (audio_and_subs_step e info v))"
proof (cases "get_prop (narration info) ''narration''")
  case (Inl err)
  then show ?thesis
    using assms by (simp add: audio_and_subs_step_def Let_def)
next
  case (Inr t)
  show ?thesis
  proof (cases t)
    case (JStr body)
    let ?input = "\<lparr>input_text = body, voiceId = None,
        outPath = samples_dir e @ ''/tts/'' @ showNat (index info) @ ''_voice.wav'',
        provider = None\<rparr>"
    obtain r1 f1 where s1: "synthesizeVoice e ?input (files w) = (r1, f1)"
      by (cases "synthesizeVoice e ?input (files w)")
    obtain r2 f2 where s2: "synthesizeVoice e ?input (files v) = (r2, f2)"
      by (cases "synthesizeVoice e ?input (files v)")
    have "r1 = r2"
      using fst_synthesizeVoice_files [of e ?input "files w" "files v"] s1 s2 by simp
    then show ?thesis
      using assms Inr JStr s1 s2
      by (simp add: audio_and_subs_step_def Let_def writeFile_def split: sum.split)
  qed (use assms Inr in \<open>simp_all add: audio_and_subs_step_def Let_def\<close>)
qed

lemma audio_and_subs_step_inv:
  assumes "\<And>u. g (call Synthesize u) = g u" and "\<And>u. g (call Subtitle u) = g u"
    and "\<And>u fs. g (u\<lparr>files := fs\<rparr>) = g u"
  shows "g (snd (audio_and_subs_step e info w)) = g w"
  unfolding audio_and_subs_step_def Let_def
  by (simp add: assms split: sum.split jsval.split prod.split)

lemma generateAudioAndSubtitles_loop_rel:
  "trace w = l @ trace v \<Longrightarrow>
   fst (generateAudioAndSubtitles_loop e infos acc w)
     = fst (generateAudioAndSubtitles_loop e infos acc v)
   \<and> trace (snd (generateAudioAndSubtitles_loop e infos acc w))
       = l @ trace (snd (generateAudioAndSubtitles_loop e infos acc v))"
proof (induction infos arbitrary: acc w v)
  case Nil
  then show ?case by simp
next
  case (Cons info infos)
  obtain a w' where sw: "audio_and_subs_step e info w = (a, w')"
    by (cases "audio_and_subs_step e info w")
  obtain b v' where sv: "audio_and_subs_step e info v = (b, v')"
    by (cases "audio_and_subs_step e info v")
  have ab: "a = b" and tr: "trace w' = l @ trace v'"
    using audio_and_subs_step_rel [OF Cons.prems, of e info] sw sv by simp_all
  show ?case
    using Cons.IH [OF tr] by (simp add: sw sv ab split: option.split)
qed

lemma generateAudioAndSubtitles_loop_inv:
  assumes "\<And>u. g (call Synthesize u) = g u" and "\<And>u. g (call Subtitle u) = g u"
    and "\<And>u fs. g (u\<lparr>files := fs\<rparr>) = g u"
  shows "g (snd (generateAudioAndSubtitles_loop e infos acc w)) = g w"
proof (induction infos arbitrary: acc w)
  case Nil
  then show ?case by simp
next
  case (Cons info infos)
  obtain a w' where sw: "audio_and_subs_step e info w = (a, w')"
    by (cases "audio_and_subs_step e info w")
  have "g w' = g w"
    using audio_and_subs_step_inv [of g e info w, OF assms] sw by simp
  then show ?case
    using Cons.IH [of _ w'] by (simp add: sw split: option.split)
qed

lemma generateAudioAndSubtitles_result:
  "fst (generateAudioAndSubtitles e infos w) = result_of (generateAudioAndSubtitles e infos)"
proof -
  have "trace w = trace w @ trace fresh" by simp
  from generateAudioAndSubtitles_loop_rel [OF this, of e infos "[]"] show ?thesis
    by (simp add: result_of_def generateAudioAndSubtitles_def)
qed

lemma generateAudioAndSubtitles_trace:
  "trace (snd (generateAudioAndSubtitles e infos w))
     = trace w @ trace_of (generateAudioAndSubtitles e infos)"
proof -
  have "trace w = trace w @ trace fresh" by simp
  from generateAudioAndSubtitles_loop_rel [OF this, of e infos "[]"] show ?thesis
    by (simp add: trace_of_def generateAudioAndSubtitles_def)
qed

lemma generateAudioAndSubtitles_inv:
  assumes "\<And>u. g (call Synthesize u) = g u" and "\<And>u. g (call Subtitle u) = g u"
    and "\<And>u fs. g (u\<lparr>files := fs\<rparr>) = g u"
  shows "g (snd (generateAudioAndSubtitles e infos w)) = g w"
  unfolding generateAudioAndSubtitles_def using assms by (rule generateAudioAndSubtitles_loop_inv)

lemma montage_step_rel:
  assumes "trace w = l @ trace v"
  shows "fst (montage_step e info w) = fst (montage_step e info v)
   \<and> trace (snd (montage_step e info w)) = l @ trace (snd (montage_step e info v))"
  using assms unfolding montage_step_def Let_def
  by (simp split: jsval.split sum.split)

lemma montage_step_inv:
  assumes "\<And>u. g (call Compose u) = g u"
  shows "g (snd (montage_step e info w)) = g w"
  unfolding montage_step_def Let_def
  by (simp add: assms split: jsval.split sum.split)

lemma createFinalMontage_loop_rel:
  "trace w = l @ trace v \<Longrightarrow>
   fst (createFinalMontage_loop e infos acc w) = fst (createFinalMontage_loop e infos acc v)
   \<and> trace (snd (createFinalMontage_loop e infos acc w))
       = l @ trace (snd (createFinalMontage_loop e infos acc v))"
proof (induction infos arbitrary: acc w v)
  case Nil
  then show ?case by simp
next
  case (Cons info infos)
  obtain a w' where sw: "montage_step e info w = (a, w')"
    by (cases "montage_step e info w")
  obtain b v' where sv: "montage_step e info v = (b, v')"
    by (cases "montage_step e info v")
  have ab: "a = b" and tr: "trace w' = l @ trace v'"
    using montage_step_rel [OF Cons.prems, of e info] sw sv by simp_all
  show ?case
    using Cons.IH [OF tr] by (simp add: sw sv ab split: option.split)
qed

lemma createFinalMontage_loop_inv:
  assumes "\<And>u. g (call Compose u) = g u"
  shows "g (snd (createFinalMontage_loop e infos acc w)) = g w"
proof (induction infos arbitrary: acc w)
  case Nil
  then show ?case by simp
next
  case (Cons info infos)
  obtain a w' where sw: "montage_step e info w = (a, w')"
    by (cases "montage_step e info w")
  have "g w' = g w"
    using montage_step_inv [of g e info w, OF assms] sw by simp
  then show ?case
    using Cons.IH [of _ w'] by (simp add: sw split: option.split)
qed

lemma createFinalMontage_result:
  "fst (createFinalMontage e infos w) = result_of (createFinalMontage e infos)"
proof -
  have "trace w = trace w @ trace fresh" by simp
  from createFinalMontage_loop_rel [OF this, of e infos "[]"] show ?thesis
    by (simp add: result_of_def createFinalMontage_def)
qed

lemma createFinalMontage_trace:
  "trace (snd (createFinalMontage e infos w)) = trace w @ trace_of (createFinalMontage e infos)"
proof -
  have "trace w = trace w @ trace fresh" by simp
  from createFinalMontage_loop_rel [OF this, of e infos "[]"] show ?thesis
    by (simp add: trace_of_def createFinalMontage_def)
qed

lemma createFinalMontage_inv:
  assumes "\<And>u. g (call Compose u) = g u"
  shows "g (snd (createFinalMontage e infos w)) = g w"
  unfolding createFinalMontage_def using assms by (rule createFinalMontage_loop_inv)

lemma upload_step_rel:
  assumes "trace w = l @ trace v"
  shows "fst (upload_step e folder video w) = fst (upload_step e folder video v)
   \<and> trace (snd (upload_step e folder video w)) = l @ trace (snd (upload_step e folder video v))"
  using assms unfolding upload_step_def Let_def
  by (simp split: fetch_result.split option.split sum.split prod.split)

lemma upload_step_inv:
  assumes "\<And>u. g (call Upload u) = g u"
  shows "g (snd (upload_step e folder video w)) = g w"
  unfolding upload_step_def Let_def
  by (simp add: assms split: fetch_result.split option.split sum.split prod.split)

lemma upload_loop_rel:
  "trace w = l @ trace v \<Longrightarrow>
   fst (upload_loop e folder videos acc w) = fst (upload_loop e folder videos acc v)
   \<and> trace (snd (upload_loop e folder videos acc w))
       = l @ trace (snd (upload_loop e folder videos acc v))"
proof (induction videos arbitrary: acc w v)
  case Nil
  then show ?case by simp
next
  case (Cons video videos)
  obtain a w' where sw: "upload_step e folder video w = (a, w')"
    by (cases "upload_step e folder video w")
  obtain b v' where sv: "upload_step e folder video v = (b, v')"
    by (cases "upload_step e folder video v")
  have ab: "a = b" and tr: "trace w' = l @ trace v'"
    using upload_step_rel [OF Cons.prems, of e folder video] sw sv by simp_all
  show ?case
    using Cons.IH [OF tr] by (simp add: sw sv ab split: option.split)
qed

lemma upload_loop_inv:
  assumes "\<And>u. g (call Upload u) = g u"
  shows "g (snd (upload_loop e folder videos acc w)) = g w"
proof (induction videos arbitrary: acc w)
  case Nil
  then show ?case by simp
next
  case (Cons video videos)
  obtain a w' where sw: "upload_step e folder video w = (a, w')"
    by (cases "upload_step e folder video w")
  have "g w' = g w"
    using upload_step_inv [of g e folder video w, OF assms] sw by simp
  then show ?case
    using Cons.IH [of _ w'] by (simp add: sw split: option.split)
qed

lemma uploadResultsToDrive_rel:
  assumes "trace w = l @ trace v"
  shows "fst (uploadResultsToDrive e videos df w) = fst (uploadResultsToDrive e videos df v)
   \<and> trace (snd (uploadResultsToDrive e videos df w))
       = l @ trace (snd (uploadResultsToDrive e videos df v))"
proof -
  have step: "trace (call CreateFolder w) = l @ trace (call CreateFolder v)"
    using assms by simp
  have loop: "fst (upload_loop e fid videos [] (call CreateFolder w))
        = fst (upload_loop e fid videos [] (call CreateFolder v))
      \<and> trace (snd (upload_loop e fid videos [] (call CreateFolder w)))
        = l @ trace (snd (upload_loop e fid videos [] (call CreateFolder v)))" for fid
    using upload_loop_rel [OF step] .
  show ?thesis
    unfolding uploadResultsToDrive_def Let_def
    using assms loop
    by (simp add: split_beta split: fetch_result.split option.split sum.split)
qed

lemma uploadResultsToDrive_inv:
  assumes "\<And>u. g (call Upload u) = g u" and "\<And>u. g (call CreateFolder u) = g u"
  shows "g (snd (uploadResultsToDrive e videos df w)) = g w"
  unfolding uploadResultsToDrive_def Let_def
  by (simp add: assms upload_loop_inv [of g, OF assms(1)] split_beta
      split: fetch_result.split option.split sum.split)

lemma uploadResultsToDrive_result:
  "fst (uploadResultsToDrive e videos df w) = result_of (uploadResultsToDrive e videos df)"
proof -
  have "trace w = trace w @ trace fresh" by simp
  from uploadResultsToDrive_rel [OF this, of e videos df] show ?thesis
    by (simp add: result_of_def)
qed

lemma uploadResultsToDrive_trace:
  "trace (snd (uploadResultsToDrive e videos df w))
     = trace w @ trace_of (uploadResultsToDrive e videos df)"
proof -
  have "trace w = trace w @ trace fresh" by simp
  from uploadResultsToDrive_rel [OF this, of e videos df] show ?thesis
    by (simp add: trace_of_def)
qed

lemmas stage_results =
  downloadFromDrive_result ingestVideo_result generateNarrations_result
  generateAudioAndSubtitles_result createFinalMontage_result uploadResultsToDrive_result

lemmas stage_traces =
  downloadFromDrive_trace ingestVideo_trace generateNarrations_trace
  generateAudioAndSubtitles_trace createFinalMontage_trace uploadResultsToDrive_trace

lemma processClip_result:
  "fst (processClip e cid jd w) = result_of (processClip e cid jd)"
  unfolding result_of_def [of "processClip e cid jd"] processClip_def Let_def
  by (simp add: split_beta stage_results split: option.split sum.split)

lemma processClip_trace:
  "trace (snd (processClip e cid jd w)) = trace w @ trace_of (processClip e cid jd)"
  unfolding trace_of_def [of "processClip e cid jd"] processClip_def Let_def
  by (simp add: split_beta stage_results stage_traces split: option.split sum.split)

subsection \<open>Worker: progress values and call counts of the stages\<close>

lemma stage_progress_values:
  "progress_values (trace_of (generateNarrations e clips)) = []"
  "progress_values (trace_of (generateAudioAndSubtitles e ninfos)) = []"
  "progress_values (trace_of (createFinalMontage e ainfos)) = []"
  "progress_values (trace_of (uploadResultsToDrive e videos df)) = []"
  unfolding trace_of_def
  using generateNarrations_inv [of "\<lambda>u. progress_values (trace u)" e clips fresh]
    generateAudioAndSubtitles_inv [of "\<lambda>u. progress_values (trace u)" e ninfos fresh]
    createFinalMontage_inv [of "\<lambda>u. progress_values (trace u)" e ainfos fresh]
    uploadResultsToDrive_inv [of "\<lambda>u. progress_values (trace u)" e videos df fresh]
  by simp_all

lemma stage_progress:
  "progress (snd (generateNarrations e clips w)) = progress w"
  "progress (snd (generateAudioAndSubtitles e ninfos w)) = progress w"
  "progress (snd (createFinalMontage e ainfos w)) = progress w"
  "progress (snd (uploadResultsToDrive e videos df w)) = progress w"
  using generateNarrations_inv [of progress e clips w]
    generateAudioAndSubtitles_inv [of progress e ninfos w]
    createFinalMontage_inv [of progress e ainfos w]
    uploadResultsToDrive_inv [of progress e videos df w]
  by simp_all

lemma stage_calls_other:
  "s \<noteq> Narrate \<Longrightarrow> calls s (trace_of (generateNarrations e clips)) = 0"
  "s \<noteq> Synthesize \<Longrightarrow> s \<noteq> Subtitle \<Longrightarrow>
     calls s (trace_of (generateAudioAndSubtitles e ninfos)) = 0"
  "s \<noteq> Compose \<Longrightarrow> calls s (trace_of (createFinalMontage e ainfos)) = 0"
  "s \<noteq> Upload \<Longrightarrow> s \<noteq> CreateFolder \<Longrightarrow>
     calls s (trace_of (uploadResultsToDrive e videos df)) = 0"
  unfolding trace_of_def
  using generateNarrations_inv [of "\<lambda>u. calls s (trace u)" e clips fresh]
    generateAudioAndSubtitles_inv [of "\<lambda>u. calls s (trace u)" e ninfos fresh]
    createFinalMontage_inv [of "\<lambda>u. calls s (trace u)" e ainfos fresh]
    uploadResultsToDrive_inv [of "\<lambda>u. calls s (trace u)" e videos df fresh]
  by simp_all

lemma generateNarrations_loop_count:
  "length (fst (generateNarrations_loop e clips i acc w)) \<le> length acc + length clips
   \<and> calls Narrate (trace (snd (generateNarrations_loop e clips i acc w)))
       = calls Narrate (trace w) + length clips"
proof (induction clips arbitrary: i acc w)
  case Nil
  then show ?case by simp
next
  case (Cons clip clips)
  show ?case
    using Cons.IH [of "i + 1" "acc @ [\<lparr>clipPath = clip,
        narration = projr (generateNarration e \<lparr>lang = en, style = zen, durationSec = 30,
          req_context = None\<rparr>), index = i\<rparr>]" "call Narrate w"]
      Cons.IH [of "i + 1" acc "call Narrate w"]
    by (auto simp: Let_def split: sum.split)
qed

lemma generateNarrations_count:
  "length (result_of (generateNarrations e clips)) \<le> length clips"
  "calls Narrate (trace_of (generateNarrations e clips)) = length clips"
  using generateNarrations_loop_count [of e clips 0 "[]" fresh]
  by (simp_all add: result_of_def trace_of_def generateNarrations_def)

lemma audio_and_subs_step_count:
  "(case fst (audio_and_subs_step e info w) of None \<Rightarrow> 0 | Some a \<Rightarrow> 1)
     + calls Synthesize (trace w)
   \<le> calls Synthesize (trace (snd (audio_and_subs_step e info w)))"
  unfolding audio_and_subs_step_def Let_def
  by (simp split: sum.split jsval.split prod.split)

lemma generateAudioAndSubtitles_loop_count:
  "length (fst (generateAudioAndSubtitles_loop e infos acc w)) \<le> length acc + length infos
   \<and> length (fst (generateAudioAndSubtitles_loop e infos acc w)) + calls Synthesize (trace w)
       \<le> length acc + calls Synthesize (trace (snd (generateAudioAndSubtitles_loop e infos acc w)))"
proof (induction infos arbitrary: acc w)
  case Nil
  then show ?case by simp
next
  case (Cons info infos)
  obtain a w' where sw: "audio_and_subs_step e info w = (a, w')"
    by (cases "audio_and_subs_step e info w")
  have c: "(case a of None \<Rightarrow> 0 | Some x \<Rightarrow> 1) + calls Synthesize (trace w)
      \<le> calls Synthesize (trace w')"
    using audio_and_subs_step_count [of e info w] sw by simp
  show ?case
  proof (cases a)
    case None
    then show ?thesis
      using Cons.IH [of acc w'] c sw by simp
  next
    case (Some x)
    then show ?thesis
      using Cons.IH [of "acc @ [x]" w'] c sw by simp
  qed
qed

lemma generateAudioAndSubtitles_count:
  "length (result_of (generateAudioAndSubtitles e infos)) \<le> length infos"
  "length (result_of (generateAudioAndSubtitles e infos))
     \<le> calls Synthesize (trace_of (generateAudioAndSubtitles e infos))"
  using generateAudioAndSubtitles_loop_count [of e infos "[]" fresh]
  by (simp_all add: result_of_def trace_of_def generateAudioAndSubtitles_def)

lemma montage_step_trace:
  "trace (snd (montage_step e info w)) = trace w @ [Call Compose]"
  unfolding montage_step_def Let_def
  by (simp split: jsval.split sum.split)


lemma createFinalMontage_loop_count:
  "length (fst (createFinalMontage_loop e infos acc w)) \<le> length acc + length infos
   \<and> calls Compose (trace (snd (createFinalMontage_loop e infos acc w)))
       = calls Compose (trace w) + length infos"
proof (induction infos arbitrary: acc w)
  case Nil
  then show ?case by simp
next
  case (Cons info infos)
  obtain a w' where sw: "montage_step e info w = (a, w')"
    by (cases "montage_step e info w")
  have c: "calls Compose (trace w') = calls Compose (trace w) + 1"
    using montage_step_trace [of e info w] sw by simp
  show ?case
  proof (cases a)
    case None
    then show ?thesis
      using Cons.IH [of acc w'] c sw by simp
  next
    case (Some x)
    then show ?thesis
      using Cons.IH [of "acc @ [x]" w'] c sw by simp
  qed
qed

lemma createFinalMontage_count:
  "length (result_of (createFinalMontage e infos)) \<le> length infos"
  "calls Compose (trace_of (createFinalMontage e infos)) = length infos"
  using createFinalMontage_loop_count [of e infos "[]" fresh]
  by (simp_all add: result_of_def trace_of_def createFinalMontage_def)



subsection \<open>Worker: one run of the clip processor\<close>

lemma processClip_progress_values:
  "(driveFile jd = None \<longrightarrow>
      progress_values (trace_of (processClip e cid jd))
        = (if isl (result_of (processClip e cid jd)) then [5] else [5, 35, 55, 75, 90, 100]))
   \<and> (driveFile jd \<noteq> None \<longrightarrow>
      (if isl (result_of (processClip e cid jd))
       then progress_values (trace_of (processClip e cid jd))
              \<in> {[5], [5, 15], [5, 15, 35, 55, 75, 90]}
       else progress_values (trace_of (processClip e cid jd)) = [5, 15, 35, 55, 75, 90, 100]))"
  unfolding result_of_def [of "processClip e cid jd"] trace_of_def [of "processClip e cid jd"]
    processClip_def Let_def
  by (simp add: split_beta stage_results stage_traces stage_progress_values
      split: option.split sum.split)

lemma processClip_stored:
  "progress (snd (processClip e cid jd w))
     = last (progress_values (trace (snd (processClip e cid jd w))))"
  unfolding processClip_def Let_def
  by (simp add: split_beta stage_results stage_traces stage_progress_values stage_progress
      downloadFromDrive_progress ingestVideo_progress
      split: option.split sum.split)

lemma ingestVideo_outcome:
  "result_of (ingestVideo e (JStr p) cid) =
     (case ingest_py e p of
        (code, out, err) \<Rightarrow>
          if code = 0 then
            Inr (case and_then (case JSON_parse e (JStr (trim out)) of
                                  None \<Rightarrow> Inl SyntaxError
                                | Some result \<Rightarrow> Inr result)
                               (\<lambda>result. get_prop result ''clips'') of
                   Inr clips \<Rightarrow> if js_truthy clips then clips else JArr []
                 | Inl x \<Rightarrow> JArr [JStr (cid @ ''_clip1.mp4''), JStr (cid @ ''_clip2.mp4'')])
          else Inl (Error (''Ingest failed with code '' @ showNat code @ '': '' @ err)))"
  unfolding result_of_def ingestVideo_def Let_def
  by (simp split: prod.split sum.split)


lemma processClip_local_ok:
  assumes "driveFile jd = None"
    and "fst (ingest_py e (samples_dir e @ ''/clips/'' @ cid @ ''.mp4'')) = 0"
  shows "\<exists>r. result_of (processClip e cid jd) = Inr r \<and> success r \<and> clipId r = cid"
  unfolding result_of_def [of "processClip e cid jd"] processClip_def Let_def
  using assms
  by (simp add: split_beta stage_results ingestVideo_outcome split: sum.split)


lemma montage_le_narrations:
  "length (result_of (createFinalMontage e
      (result_of (generateAudioAndSubtitles e (result_of (generateNarrations e clips))))))
   \<le> calls Narrate (trace_of (generateNarrations e clips))"
  using createFinalMontage_count(1)
      [of e "result_of (generateAudioAndSubtitles e (result_of (generateNarrations e clips)))"]
    generateAudioAndSubtitles_count(1) [of e "result_of (generateNarrations e clips)"]
    generateNarrations_count [of e clips]
  by linarith

lemma montage_le_synthesize:
  "length (result_of (createFinalMontage e (result_of (generateAudioAndSubtitles e infos))))
   \<le> calls Synthesize (trace_of (generateAudioAndSubtitles e infos))"
  using createFinalMontage_count(1) [of e "result_of (generateAudioAndSubtitles e infos)"]
    generateAudioAndSubtitles_count(2) [of e infos]
  by linarith

lemma montage_le_compose:
  "length (result_of (createFinalMontage e infos))
   \<le> calls Compose (trace_of (createFinalMontage e infos))"
  using createFinalMontage_count [of e infos] by simp

lemma processClip_calls:
  assumes "result_of (processClip e cid jd) = Inr r"
  shows "calls Ingest (trace_of (processClip e cid jd)) = 1
    \<and> length (finalVideos r) \<le> calls Narrate (trace_of (processClip e cid jd))
    \<and> length (finalVideos r) \<le> calls Synthesize (trace_of (processClip e cid jd))
    \<and> length (finalVideos r) \<le> calls Compose (trace_of (processClip e cid jd))"
  using assms
  unfolding result_of_def [of "processClip e cid jd"] trace_of_def [of "processClip e cid jd"]
    processClip_def Let_def
  by (auto simp: split_beta stage_results stage_traces stage_calls_other
      montage_le_narrations montage_le_synthesize montage_le_compose
      intro: trans_le_add1 trans_le_add2
      split: option.splits sum.splits)


lemma studio_env_simps:
  "driveFile local_job = None"
  "ingest_py studio_env p = (0, '''', '''')"
  "ingest_py broken_montage_env p = (0, '''', '''')"
  "ingest_py failed_ingest_env p = (2, '''', ''no video stream'')"
  "auto_edit_py broken_montage_env c v s out = 1"
  "samples_dir studio_env = ''/srv/samples''"
  by (simp_all add: local_job_def studio_env_def broken_montage_env_def failed_ingest_env_def
      env.defs offline_env_def)

text \<open>
  Claim C7, as the code has it. A run of \<open>processClip\<close> reports only values among
  5, 15, 35, 55, 75, 90, 100, each stored as the job's progress when reported. A run
  that succeeds on a Drive source reports the seven values in order; a run that succeeds
  on a local source reports 5, 35, 55, 75, 90, 100, since 15 follows the Drive download
  only; a run that throws stops after 5, after 15 or after 90.
\<close>

theorem processClip_checkpoints:
  assumes "processClip e cid jd w = (res, w')"
  shows "\<exists>ps. progress_values (trace w') = progress_values (trace w) @ ps
           \<and> progress w' = last ps
           \<and> set ps \<subseteq> {5, 15, 35, 55, 75, 90, 100}
           \<and> (\<not> isl res \<and> driveFile jd \<noteq> None \<longrightarrow> ps = [5, 15, 35, 55, 75, 90, 100])
           \<and> (\<not> isl res \<and> driveFile jd = None \<longrightarrow> ps = [5, 35, 55, 75, 90, 100])
           \<and> (isl res \<longrightarrow> ps \<in> {[5], [5, 15], [5, 15, 35, 55, 75, 90]})"
proof -
  let ?ps = "progress_values (trace_of (processClip e cid jd))"
  have res: "res = result_of (processClip e cid jd)"
    using processClip_result [of e cid jd w] assms by simp
  have tr: "trace w' = trace w @ trace_of (processClip e cid jd)"
    using processClip_trace [of e cid jd w] assms by simp
  have shape: "?ps \<in> {[5], [5, 15], [5, 15, 35, 55, 75, 90], [5, 35, 55, 75, 90, 100],
      [5, 15, 35, 55, 75, 90, 100]}"
    using processClip_progress_values [of jd e cid]
    by (cases "driveFile jd = None") (auto split: if_splits)
  have ne: "?ps \<noteq> []"
    using shape by auto
  have "progress w' = last (progress_values (trace w'))"
    using processClip_stored [of e cid jd w] assms by simp
  then have stored: "progress w' = last ?ps"
    using ne by (simp add: tr)
  have sub: "set ?ps \<subseteq> {5, 15, 35, 55, 75, 90, 100}"
    using shape by auto
  show ?thesis
    using processClip_progress_values [of jd e cid] stored sub
    by (intro exI [of _ ?ps]) (auto simp: tr res split: if_splits)
qed

theorem processClip_checkpoints_witness:
  "progress_values (trace (snd (processClip studio_env ''c'' local_job fresh)))
     = [5, 35, 55, 75, 90, 100]
   \<and> progress (snd (processClip studio_env ''c'' local_job fresh)) = 100"
proof -
  obtain r where "result_of (processClip studio_env ''c'' local_job) = Inr r"
    using processClip_local_ok [of local_job studio_env "''c''"] by (auto simp: studio_env_simps)
  then have ok: "\<not> isl (fst (processClip studio_env ''c'' local_job fresh))"
    by (simp add: processClip_result)
  have run: "processClip studio_env ''c'' local_job fresh
      = (fst (processClip studio_env ''c'' local_job fresh),
         snd (processClip studio_env ''c'' local_job fresh))"
    by simp
  show ?thesis
    using processClip_checkpoints [OF run] ok by (auto simp: studio_env_simps)
qed

text \<open>
  The claim as worded has every run report 5, 15, 35, 55, 75, 90, 100. A successful run
  on a local source never reports 15.
\<close>

theorem processClip_checkpoints_counterexample:
  "driveFile local_job = None
   \<and> \<not> isl (fst (processClip studio_env ''c'' local_job fresh))
   \<and> progress_values (trace (snd (processClip studio_env ''c'' local_job fresh)))
       = [5, 35, 55, 75, 90, 100]
   \<and> 15 \<notin> set (progress_values (trace (snd (processClip studio_env ''c'' local_job fresh))))"
proof -
  obtain r where r: "result_of (processClip studio_env ''c'' local_job) = Inr r"
    using processClip_local_ok [of local_job studio_env "''c''"] by (auto simp: studio_env_simps)
  have "progress_values (trace_of (processClip studio_env ''c'' local_job))
      = [5, 35, 55, 75, 90, 100]"
    using processClip_progress_values [of local_job studio_env "''c''"] r
    by (simp add: studio_env_simps)
  then show ?thesis
    using r by (simp add: processClip_result processClip_trace studio_env_simps)
qed




text \<open>
  Claim C1, as the code has it. The clip processor keeps no fingerprint and no stage
  results: a second run after a successful one returns the same result, with the same
  artifact paths, by doing all the work again. It records exactly the events of the
  first run once more: the extractor is called once again, and the narration generator,
  the voice synthesizer and the compositor again at least once for every final video.
\<close>

theorem processClip_rerun:
  assumes "processClip e cid jd w = (Inr r, w1)"
  shows "\<exists>w2 seg. processClip e cid jd w1 = (Inr r, w2)
           \<and> trace w1 = trace w @ seg
           \<and> trace w2 = trace w1 @ seg
           \<and> calls Ingest seg = 1
           \<and> length (finalVideos r) \<le> calls Narrate seg
           \<and> length (finalVideos r) \<le> calls Synthesize seg
           \<and> length (finalVideos r) \<le> calls Compose seg"
proof -
  let ?seg = "trace_of (processClip e cid jd)"
  have res: "result_of (processClip e cid jd) = Inr r"
    using processClip_result [of e cid jd w] assms by simp
  have first: "trace w1 = trace w @ ?seg"
    using processClip_trace [of e cid jd w] assms by simp
  have again: "fst (processClip e cid jd w1) = Inr r"
    using processClip_result [of e cid jd w1] res by simp
  have second: "trace (snd (processClip e cid jd w1)) = trace w1 @ ?seg"
    by (rule processClip_trace)
  have "processClip e cid jd w1 = (Inr r, snd (processClip e cid jd w1))"
    using again by (simp add: prod_eq_iff)
  then show ?thesis
    using first second processClip_calls [OF res] by blast
qed

theorem processClip_rerun_witness:
  "\<exists>r w1 w2. processClip studio_env ''c'' local_job fresh = (Inr r, w1)
      \<and> processClip studio_env ''c'' local_job w1 = (Inr r, w2)
      \<and> calls Ingest (trace w1) = 1
      \<and> calls Ingest (trace w2) = 2"
proof -
  obtain r where r: "result_of (processClip studio_env ''c'' local_job) = Inr r"
    using processClip_local_ok [of local_job studio_env "''c''"] by (auto simp: studio_env_simps)
  then have "fst (processClip studio_env ''c'' local_job fresh) = Inr r"
    by (simp add: processClip_result)
  then have run: "processClip studio_env ''c'' local_job fresh
      = (Inr r, snd (processClip studio_env ''c'' local_job fresh))"
    by (simp add: prod_eq_iff)
  from processClip_rerun [OF run] obtain w2 seg where
    second: "processClip studio_env ''c'' local_job
        (snd (processClip studio_env ''c'' local_job fresh)) = (Inr r, w2)"
    and t1: "trace (snd (processClip studio_env ''c'' local_job fresh)) = trace fresh @ seg"
    and t2: "trace w2 = trace (snd (processClip studio_env ''c'' local_job fresh)) @ seg"
    and one: "calls Ingest seg = 1"
    by blast
  have c1: "calls Ingest (trace (snd (processClip studio_env ''c'' local_job fresh))) = 1"
    using t1 one by simp
  have c2: "calls Ingest (trace w2) = 2"
    using t1 t2 one by simp
  from run second c1 c2 show ?thesis by blast
qed

text \<open>
  The claim as worded has the second run call no adapter of a completed stage. On the
  studio machine the second run of a successful job calls the extractor again.
\<close>

theorem processClip_rerun_counterexample:
  "\<not> isl (fst (processClip studio_env ''c'' local_job fresh))
   \<and> calls Ingest (trace (snd (processClip studio_env ''c'' local_job
         (snd (processClip studio_env ''c'' local_job fresh)))))
     = calls Ingest (trace (snd (processClip studio_env ''c'' local_job fresh))) + 1"
proof -
  obtain r where r: "result_of (processClip studio_env ''c'' local_job) = Inr r"
    using processClip_local_ok [of local_job studio_env "''c''"] by (auto simp: studio_env_simps)
  show ?thesis
    using r processClip_calls [OF r]
    by (simp add: processClip_result processClip_trace)
qed








subsection \<open>Publishing\<close>

lemma showNat_nonempty: "showNat n \<noteq> []"
  by (subst showNat.simps) simp

lemma digit_char_inj:
  assumes "a < 10" and "b < 10" and "digit_char a = digit_char b"
  shows "a = b"
proof -
  have d: "distinct ''0123456789''" by simp
  have "a < length ''0123456789''" "b < length ''0123456789''"
    using assms by simp_all
  then show ?thesis
    using assms(3) d unfolding digit_char_def
    by (simp only: nth_eq_iff_index_eq)
qed

lemma showNat_inj: "showNat a = showNat b \<Longrightarrow> a = b"
proof (induction a arbitrary: b rule: showNat.induct)
  case (1 n)
  show ?case
  proof (cases "n < 10")
    case small_n: True
    show ?thesis
    proof (cases "b < 10")
      case True
      then show ?thesis
        using "1.prems" small_n digit_char_inj [of n b]
        by (simp add: showNat.simps [of n] showNat.simps [of b])
    next
      case False
      then have "length (showNat b) \<ge> 2"
        using showNat_nonempty [of "b div 10"]
        by (simp add: showNat.simps [of b] Suc_le_eq)
      moreover have "length (showNat n) = 1"
        using small_n by (simp add: showNat.simps [of n])
      ultimately show ?thesis
        using "1.prems" by simp
    qed
  next
    case big_n: False
    show ?thesis
    proof (cases "b < 10")
      case True
      have "length (showNat n) \<ge> 2"
        using big_n showNat_nonempty [of "n div 10"]
        by (simp add: showNat.simps [of n] Suc_le_eq)
      moreover have "length (showNat b) = 1"
        using True by (simp add: showNat.simps [of b])
      ultimately show ?thesis
        using "1.prems" by simp
    next
      case False
      have eq: "showNat (n div 10) @ [digit_char (n mod 10)]
          = showNat (b div 10) @ [digit_char (b mod 10)]"
        using "1.prems" big_n False by (simp add: showNat.simps [of n] showNat.simps [of b])
      then have "showNat (n div 10) = showNat (b div 10)"
        and dg: "digit_char (n mod 10) = digit_char (b mod 10)"
        by simp_all
      then have q: "n div 10 = b div 10"
        using "1.IH" [OF big_n] by simp
      have m: "n mod 10 = b mod 10"
        using dg by (intro digit_char_inj) simp_all
      have "n = 10 * (n div 10) + n mod 10" by simp
      also have "\<dots> = 10 * (b div 10) + b mod 10" using q m by simp
      also have "\<dots> = b" by simp
      finally show ?thesis .
    qed
  qed
qed

lemma receiptPath_inj:
  "receiptPath e cid platform a = receiptPath e cid platform b \<Longrightarrow> a = b"
  by (simp add: receiptPath_def showNat_inj)

lemma update_absent: "map_of al k = None \<Longrightarrow> AList.update k v al = al @ [(k, v)]"
  by (induction al) (auto split: if_splits)

lemma uploadToPlatform_supported:
  assumes "platform = ''youtube'' \<or> platform = ''tiktok'' \<or> platform = ''meta''"
  shows "\<exists>pid url. uploadToPlatform now cid platform
           = Inr (JObj [(''publishId'', pid), (''url'', url), (''platform'', JStr platform)])"
proof -
  consider "platform = ''youtube''" | "platform = ''tiktok''" | "platform = ''meta''"
    using assms by blast
  then show ?thesis
  proof cases
    case 1
    then show ?thesis by (simp add: uploadToPlatform_def Let_def)
  next
    case 2
    then show ?thesis by (simp add: uploadToPlatform_def Let_def)
  next
    case 3
    then show ?thesis by (simp add: uploadToPlatform_def Let_def)
  qed
qed

lemma publishContent_files:
  assumes "platform = ''youtube'' \<or> platform = ''tiktok'' \<or> platform = ''meta''"
    and "\<not> writeFile_fails e (receiptPath e cid platform (receipt_ms clk))"
  shows "\<exists>pid url.
      \<not> isl (fst (publishContent e clk cid platform w))
      \<and> files (snd (publishContent e clk cid platform w))
          = AList.update (receiptPath e cid platform (receipt_ms clk))
              (JsonText (JObj [(''clipId'', JStr cid), (''platform'', JStr platform),
                               (''publishId'', pid), (''url'', url),
                               (''publishedAt'', JStr (receipt_iso clk)),
                               (''success'', JBool True)]))
              (files w)"
proof -
  from uploadToPlatform_supported [OF assms(1), of "upload_ms clk" cid] obtain pid url where
    up: "uploadToPlatform (upload_ms clk) cid platform
        = Inr (JObj [(''publishId'', pid), (''url'', url), (''platform'', JStr platform)])"
    by blast
  have "\<not> isl (fst (publishContent e clk cid platform w))
      \<and> files (snd (publishContent e clk cid platform w))
          = AList.update (receiptPath e cid platform (receipt_ms clk))
              (JsonText (JObj [(''clipId'', JStr cid), (''platform'', JStr platform),
                               (''publishId'', pid), (''url'', url),
                               (''publishedAt'', JStr (receipt_iso clk)),
                               (''success'', JBool True)]))
              (files w)"
    using assms(2)
    by (simp add: publishContent_def Let_def up savePublishReceipt_def and_then_def
        writeFile_def)
  then show ?thesis by blast
qed

lemma receipts_for_snoc:
  "receipts_for cid platform
     (fs @ [(p, JsonText (JObj [(''clipId'', JStr cid), (''platform'', JStr platform),
                                (''publishId'', pid), (''url'', url),
                                (''publishedAt'', stamp),
                                (''success'', flag)]))])
   = receipts_for cid platform fs
     @ [(p, JsonText (JObj [(''clipId'', JStr cid), (''platform'', JStr platform),
                            (''publishId'', pid), (''url'', url),
                            (''publishedAt'', stamp),
                            (''success'', flag)]))]"
  by (simp add: receipts_for_def is_receipt_for_def)

lemma publish_once:
  assumes "platform = ''youtube'' \<or> platform = ''tiktok'' \<or> platform = ''meta''"
    and "\<not> writeFile_fails e (receiptPath e cid platform (receipt_ms clk))"
    and "map_of (files w) (receiptPath e cid platform (receipt_ms clk)) = None"
  shows "\<not> isl (fst (publishContent e clk cid platform w))
    \<and> length (receipts_for cid platform (files (snd (publishContent e clk cid platform w))))
        = length (receipts_for cid platform (files w)) + 1
    \<and> (\<forall>p. p \<noteq> receiptPath e cid platform (receipt_ms clk) \<longrightarrow>
          map_of (files (snd (publishContent e clk cid platform w))) p = map_of (files w) p)"
proof -
  from publishContent_files [OF assms(1,2), of w] obtain pid url where
    ok: "\<not> isl (fst (publishContent e clk cid platform w))"
    and fs: "files (snd (publishContent e clk cid platform w))
          = AList.update (receiptPath e cid platform (receipt_ms clk))
              (JsonText (JObj [(''clipId'', JStr cid), (''platform'', JStr platform),
                               (''publishId'', pid), (''url'', url),
                               (''publishedAt'', JStr (receipt_iso clk)),
                               (''success'', JBool True)]))
              (files w)"
    by blast
  have other: "\<forall>p. p \<noteq> receiptPath e cid platform (receipt_ms clk) \<longrightarrow>
          map_of (files (snd (publishContent e clk cid platform w))) p = map_of (files w) p"
    by (simp add: fs update_conv')
  show ?thesis
    using ok other by (simp add: fs update_absent [OF assms(3)] receipts_for_snoc)
qed

lemma publish_twice:
  assumes "platform = ''youtube'' \<or> platform = ''tiktok'' \<or> platform = ''meta''"
    and "\<not> writeFile_fails e (receiptPath e cid platform (receipt_ms clk1))"
    and "\<not> writeFile_fails e (receiptPath e cid platform (receipt_ms clk2))"
    and "receipt_ms clk1 \<noteq> receipt_ms clk2"
    and "map_of (files w) (receiptPath e cid platform (receipt_ms clk1)) = None"
    and "map_of (files w) (receiptPath e cid platform (receipt_ms clk2)) = None"
  shows "\<not> isl (fst (publishContent e clk1 cid platform w))
    \<and> \<not> isl (fst (publishContent e clk2 cid platform (snd (publishContent e clk1 cid platform w))))
    \<and> length (receipts_for cid platform
         (files (snd (publishContent e clk2 cid platform
            (snd (publishContent e clk1 cid platform w))))))
        = length (receipts_for cid platform (files w)) + 2"
proof -
  let ?w1 = "snd (publishContent e clk1 cid platform w)"
  have ne: "receiptPath e cid platform (receipt_ms clk2)
      \<noteq> receiptPath e cid platform (receipt_ms clk1)"
    using assms(4) receiptPath_inj by metis
  note first = publish_once [OF assms(1,2,5)]
  have "map_of (files ?w1) (receiptPath e cid platform (receipt_ms clk2)) = None"
    using first ne assms(6) by simp
  note second = publish_once [OF assms(1,3) this]
  show ?thesis
    using first second by simp
qed

lemma tiktok_publish_files:
  assumes "process_env e ''DRY_RUN'' \<noteq> Some ''true''"
    and "\<not> mkdir_fails e (path_resolve e ''.out/publish/tiktok'')"
    and "\<not> writeFile_fails e (receiptFile e ''tiktok'' (''tt-'' @ showNat now @ ''-'' @ rnd))"
  shows "\<exists>result.
      tiktok_publish e now rnd created options fs
        = (Inr result,
           AList.update (receiptFile e ''tiktok'' (''tt-'' @ showNat now @ ''-'' @ rnd))
             (JsonText result) fs)
      \<and> get_prop result ''clipPath'' = Inr (JStr (pub_clipPath options))
      \<and> get_prop result ''platform'' = Inr (JStr ''TIKTOK'')"
  using assms
  by (simp add: tiktok_publish_def writeReceiptFile_def writeFile_def Let_def)

lemma receiptFile_inj:
  "receiptFile e platform a = receiptFile e platform b \<Longrightarrow> a = b"
  by (simp add: receiptFile_def)

text \<open>
  Claim C2, as the code has it. Neither publisher looks for an earlier receipt and
  neither has a force flag. Every successful \<open>publishContent\<close> writes a receipt file
  named after the clip, the platform and the time of writing: publishing the same clip
  to the same platform twice, at two different times, leaves two receipts for the pair.
  Every \<open>publish\<close> of the TikTok publisher outside a dry run writes a receipt file named
  after a new external id: publishing the same clip twice leaves both receipt files.
\<close>

theorem publish_twice_two_receipts:
  assumes "platform = ''youtube'' \<or> platform = ''tiktok'' \<or> platform = ''meta''"
    and "\<not> writeFile_fails e (receiptPath e cid platform (receipt_ms clk1))"
    and "\<not> writeFile_fails e (receiptPath e cid platform (receipt_ms clk2))"
    and "receipt_ms clk1 \<noteq> receipt_ms clk2"
    and "map_of (files w) (receiptPath e cid platform (receipt_ms clk1)) = None"
    and "map_of (files w) (receiptPath e cid platform (receipt_ms clk2)) = None"
    and "process_env e ''DRY_RUN'' \<noteq> Some ''true''"
    and "\<not> mkdir_fails e (path_resolve e ''.out/publish/tiktok'')"
    and "\<not> writeFile_fails e (receiptFile e ''tiktok'' (''tt-'' @ showNat now1 @ ''-'' @ rnd1))"
    and "\<not> writeFile_fails e (receiptFile e ''tiktok'' (''tt-'' @ showNat now2 @ ''-'' @ rnd2))"
    and "''tt-'' @ showNat now1 @ ''-'' @ rnd1 \<noteq> ''tt-'' @ showNat now2 @ ''-'' @ rnd2"
  shows "\<not> isl (fst (publishContent e clk1 cid platform w))
    \<and> \<not> isl (fst (publishContent e clk2 cid platform (snd (publishContent e clk1 cid platform w))))
    \<and> length (receipts_for cid platform
         (files (snd (publishContent e clk2 cid platform
            (snd (publishContent e clk1 cid platform w))))))
        = length (receipts_for cid platform (files w)) + 2
    \<and> (\<exists>r1 r2 fs1 fs2.
          tiktok_publish e now1 rnd1 created1 options fs = (Inr r1, fs1)
          \<and> tiktok_publish e now2 rnd2 created2 options fs1 = (Inr r2, fs2)
          \<and> map_of fs2 (receiptFile e ''tiktok'' (''tt-'' @ showNat now1 @ ''-'' @ rnd1))
              = Some (JsonText r1)
          \<and> map_of fs2 (receiptFile e ''tiktok'' (''tt-'' @ showNat now2 @ ''-'' @ rnd2))
              = Some (JsonText r2)
          \<and> get_prop r1 ''clipPath'' = get_prop r2 ''clipPath'')"
proof -
  let ?p1 = "receiptFile e ''tiktok'' (''tt-'' @ showNat now1 @ ''-'' @ rnd1)"
  let ?p2 = "receiptFile e ''tiktok'' (''tt-'' @ showNat now2 @ ''-'' @ rnd2)"
  note worker = publish_twice [OF assms(1-6)]
  from tiktok_publish_files [OF assms(7,8,9), of created1 options fs] obtain r1 where
    r1: "tiktok_publish e now1 rnd1 created1 options fs
           = (Inr r1, AList.update ?p1 (JsonText r1) fs)"
    and c1: "get_prop r1 ''clipPath'' = Inr (JStr (pub_clipPath options))"
    by blast
  from tiktok_publish_files [OF assms(7,8,10), of created2 options
      "AList.update ?p1 (JsonText r1) fs"] obtain r2 where
    r2: "tiktok_publish e now2 rnd2 created2 options (AList.update ?p1 (JsonText r1) fs)
           = (Inr r2, AList.update ?p2 (JsonText r2) (AList.update ?p1 (JsonText r1) fs))"
    and c2: "get_prop r2 ''clipPath'' = Inr (JStr (pub_clipPath options))"
    by blast
  have ne: "?p1 \<noteq> ?p2"
    using assms(11) receiptFile_inj by blast
  have m1: "map_of (AList.update ?p2 (JsonText r2) (AList.update ?p1 (JsonText r1) fs)) ?p1
      = Some (JsonText r1)"
    using ne by (simp add: update_conv')
  have m2: "map_of (AList.update ?p2 (JsonText r2) (AList.update ?p1 (JsonText r1) fs)) ?p2
      = Some (JsonText r2)"
    by (simp add: update_conv')
  have "\<exists>r1 r2 fs1 fs2.
          tiktok_publish e now1 rnd1 created1 options fs = (Inr r1, fs1)
          \<and> tiktok_publish e now2 rnd2 created2 options fs1 = (Inr r2, fs2)
          \<and> map_of fs2 ?p1 = Some (JsonText r1)
          \<and> map_of fs2 ?p2 = Some (JsonText r2)
          \<and> get_prop r1 ''clipPath'' = get_prop r2 ''clipPath''"
    using r1 r2 m1 m2 c1 c2 by metis
  with worker show ?thesis by blast
qed

lemma sample_publish_facts:
  "\<not> writeFile_fails studio_env p"
  "\<not> mkdir_fails studio_env p"
  "process_env studio_env k = None"
  "receipt_ms sample_clock = 1001"
  "receipt_ms later_clock = 2001"
  "files fresh = []"
  by (simp_all add: studio_env_def env.defs offline_env_def sample_clock_def later_clock_def)

theorem publish_twice_two_receipts_witness:
  "length (receipts_for ''c'' ''tiktok''
      (files (snd (publishContent studio_env later_clock ''c'' ''tiktok''
         (snd (publishContent studio_env sample_clock ''c'' ''tiktok'' fresh)))))) = 2
   \<and> (\<exists>r1 r2 fs1 fs2.
          tiktok_publish studio_env 1 ''a'' ''t1'' sample_options [] = (Inr r1, fs1)
          \<and> tiktok_publish studio_env 1 ''b'' ''t2'' sample_options fs1 = (Inr r2, fs2)
          \<and> map_of fs2 (receiptFile studio_env ''tiktok'' (''tt-'' @ showNat 1 @ ''-'' @ ''a''))
              = Some (JsonText r1)
          \<and> map_of fs2 (receiptFile studio_env ''tiktok'' (''tt-'' @ showNat 1 @ ''-'' @ ''b''))
              = Some (JsonText r2))"
proof -
  have h: "''tt-'' @ showNat 1 @ ''-'' @ ''a'' \<noteq> ''tt-'' @ showNat 1 @ ''-'' @ ''b''"
    by simp
  have t: "''tiktok'' = ''youtube'' \<or> ''tiktok'' = ''tiktok'' \<or> ''tiktok'' = ''meta''"
    by simp
  have d: "receipt_ms sample_clock \<noteq> receipt_ms later_clock"
    by (simp add: sample_publish_facts)
  have dry: "process_env studio_env ''DRY_RUN'' \<noteq> Some ''true''"
    by (simp add: sample_publish_facts)
  have e1: "map_of (files fresh) (receiptPath studio_env ''c'' ''tiktok'' (receipt_ms sample_clock))
      = None"
    and e2: "map_of (files fresh) (receiptPath studio_env ''c'' ''tiktok'' (receipt_ms later_clock))
      = None"
    by (simp_all add: sample_publish_facts)
  from publish_twice_two_receipts [OF t sample_publish_facts(1) sample_publish_facts(1) d e1 e2
      dry sample_publish_facts(2) sample_publish_facts(1) sample_publish_facts(1) h,
      of "''t1''" sample_options "[]" "''t2''"]
  show ?thesis
    by (simp add: receipts_for_def) blast
qed

text \<open>
  The claim as worded has the second publication rejected or without effect. Publishing
  clip \<open>c\<close> to TikTok at two different times, with no force flag anywhere, leaves two
  receipts for the pair.
\<close>

theorem publish_twice_counterexample:
  "length (receipts_for ''c'' ''tiktok'' (files fresh)) = 0
   \<and> \<not> isl (fst (publishContent studio_env sample_clock ''c'' ''tiktok'' fresh))
   \<and> \<not> isl (fst (publishContent studio_env later_clock ''c'' ''tiktok''
         (snd (publishContent studio_env sample_clock ''c'' ''tiktok'' fresh))))
   \<and> length (receipts_for ''c'' ''tiktok''
      (files (snd (publishContent studio_env later_clock ''c'' ''tiktok''
         (snd (publishContent studio_env sample_clock ''c'' ''tiktok'' fresh)))))) = 2"
proof -
  have t: "''tiktok'' = ''youtube'' \<or> ''tiktok'' = ''tiktok'' \<or> ''tiktok'' = ''meta''"
    by simp
  have d: "receipt_ms sample_clock \<noteq> receipt_ms later_clock"
    by (simp add: sample_publish_facts)
  have e1: "map_of (files fresh) (receiptPath studio_env ''c'' ''tiktok'' (receipt_ms sample_clock))
      = None"
    and e2: "map_of (files fresh) (receiptPath studio_env ''c'' ''tiktok'' (receipt_ms later_clock))
      = None"
    by (simp_all add: sample_publish_facts)
  from publish_twice [OF t sample_publish_facts(1) sample_publish_facts(1) d e1 e2]
  show ?thesis
    by (simp add: receipts_for_def)
qed

subsection \<open>Retry\<close>

lemma run_job_always_failing:
  "\<forall>u. isl (fst (processor u)) \<Longrightarrow> attemptsMade j < attempts opts \<Longrightarrow>
    job_status (fst (run_job opts processor j w)) = ERROR
    \<and> attemptsMade (fst (run_job opts processor j w)) = attempts opts
    \<and> backoff_delays (fst (run_job opts processor j w))
        = backoff_delays j @ map (backoff_delay opts) [attemptsMade j..<attempts opts - 1]
    \<and> returnvalue (fst (run_job opts processor j w)) = returnvalue j
    \<and> (\<exists>u err. fst (processor u) = Inl err
          \<and> lastError (fst (run_job opts processor j w)) = Some err)"
proof (induction opts processor j w rule: run_job.induct)
  case (1 opts processor j w)
  have "isl (fst (processor w))"
    using "1.prems"(1) by simp
  then obtain err where "fst (processor w) = Inl err"
    by (auto simp: isl_def)
  then obtain w' where step: "processor w = (Inl err, w')"
    by (cases "processor w") simp
  show ?case
  proof (cases "attemptsMade j + 1 < attempts opts")
    case True
    let ?j = "j\<lparr>job_status := QUEUED, attemptsMade := attemptsMade j + 1,
                  lastError := Some err,
                  backoff_delays := backoff_delays j @ [backoff_delay opts (attemptsMade j)]\<rparr>"
    have unfold: "run_job opts processor j w = run_job opts processor ?j w'"
      using True step by (subst run_job.simps) simp
    have lt: "attemptsMade ?j < attempts opts"
      using True by simp
    have range: "[attemptsMade j..<attempts opts - 1]
        = attemptsMade j # [attemptsMade j + 1..<attempts opts - 1]"
      using True by (simp add: upt_conv_Cons)
    have range': "map (backoff_delay opts) [attemptsMade j..<attempts opts - 1]
        = backoff_delay opts (attemptsMade j)
          # map (backoff_delay opts) [Suc (attemptsMade j)..<attempts opts - 1]"
      by (simp only: range list.map) simp
    from "1.IH" [OF True step [symmetric] refl "1.prems"(1) lt] show ?thesis
      unfolding unfold range' by simp
  next
    case False
    with "1.prems"(2) have last: "attemptsMade j + 1 = attempts opts"
      by simp
    have "run_job opts processor j w
        = (j\<lparr>job_status := ERROR, attemptsMade := attemptsMade j + 1,
               lastError := Some err\<rparr>, w')"
      using False step by (subst run_job.simps) simp
    moreover have "fst (processor w) = Inl err"
      using step by simp
    ultimately show ?thesis
      using last by auto
  qed
qed

text \<open>
  Claim C4. With the queue's default job options (3 attempts, exponential backoff from
  2000 ms), a job whose processor throws on every attempt is run exactly 3 times, is put
  back twice, after delays of 2000 ms and 4000 ms (the base delay times 2 to the power
  of the number of retries already made), and ends in \<open>ERROR\<close> with the error of the
  last attempt and no result. The retry loop always returns.
\<close>

theorem retry_bound:
  assumes "\<forall>u. isl (fst (processor u))"
  shows "job_status (fst (run_job defaultJobOptions processor new_job w)) = ERROR
    \<and> attemptsMade (fst (run_job defaultJobOptions processor new_job w)) = 3
    \<and> backoff_delays (fst (run_job defaultJobOptions processor new_job w))
        = [2000 * 2 ^ 0, 2000 * 2 ^ 1]
    \<and> returnvalue (fst (run_job defaultJobOptions processor new_job w)) = None
    \<and> (\<exists>u err. fst (processor u) = Inl err
          \<and> lastError (fst (run_job defaultJobOptions processor new_job w)) = Some err)"
proof -
  have lt: "attemptsMade (new_job :: 'a queue_job) < attempts defaultJobOptions"
    by (simp add: new_job_def defaultJobOptions_def)
  have range: "[0..<2] = [0, 1]"
    by (simp add: upt_rec)
  from run_job_always_failing [OF assms lt, of w] show ?thesis
    by (simp add: new_job_def defaultJobOptions_def backoff_delay_def range)
qed

theorem retry_bound_witness:
  "(\<forall>u. isl (fst (processJob studio_env sample_clock job_without_clip u)))
   \<and> job_status (fst (run_job defaultJobOptions
        (processJob studio_env sample_clock job_without_clip) new_job fresh)) = ERROR
   \<and> attemptsMade (fst (run_job defaultJobOptions
        (processJob studio_env sample_clock job_without_clip) new_job fresh)) = 3
   \<and> backoff_delays (fst (run_job defaultJobOptions
        (processJob studio_env sample_clock job_without_clip) new_job fresh)) = [2000, 4000]"
proof -
  have h: "\<forall>u. isl (fst (processJob studio_env sample_clock job_without_clip u))"
    by (simp add: processJob_def job_without_clip_def truthy_def)
  from retry_bound [OF h, of fresh] h show ?thesis
    by simp
qed

end
